theory Spec2Isabelle
  imports Complex_Main
begin

text \<open>
  A model of \<open>server.py\<close>, the HTTP front of the Moonsec deobfuscator: the output
  formatter \<open>format_output\<close>, the build step \<open>build_moonsec\<close> and the handler of
  POST /deobfuscate, over an explicit file system and a trace of the external commands
  run. What the source leaves to the machine it runs on (the external tool, the .NET
  build, \<open>tempfile\<close>, the console \<open>print\<close> writes to, refused deletions) is a
  parameter of the model.
\<close>

section \<open>Python strings\<close>

text \<open>
  A Python \<open>str\<close> is a sequence of Unicode code points; a code point is modelled as
  a natural number, so that the whitespace test of \<open>str.strip\<close> covers the whole code
  space and not only one byte. \<open>py\<close> turns an ASCII literal into such a string.
\<close>

type_synonym pystr = "nat list"

definition py :: "string \<Rightarrow> pystr" where
  "py s = map of_char s"

definition NL :: nat where "NL = 10"
definition SEMI :: nat where "SEMI = 59"
definition LBRACE :: nat where "LBRACE = 123"
definition RBRACE :: nat where "RBRACE = 125"

text \<open>
  The characters \<open>str.strip()\<close> and \<open>str.rstrip()\<close> remove when called without an
  argument: those for which CPython's \<open>Py_UNICODE_ISSPACE\<close> holds.
\<close>

definition is_space :: "nat \<Rightarrow> bool" where
  "is_space c \<longleftrightarrow>
     (9 \<le> c \<and> c \<le> 13) \<or> (28 \<le> c \<and> c \<le> 32) \<or> c = 133 \<or> c = 160 \<or> c = 5760 \<or>
     (8192 \<le> c \<and> c \<le> 8202) \<or> c = 8232 \<or> c = 8233 \<or> c = 8239 \<or> c = 8287 \<or> c = 12288"

definition rstrip :: "pystr \<Rightarrow> pystr" where
  "rstrip s = rev (dropWhile is_space (rev s))"

definition lstrip :: "pystr \<Rightarrow> pystr" where
  "lstrip s = dropWhile is_space s"

definition strip :: "pystr \<Rightarrow> pystr" where
  "strip s = lstrip (rstrip s)"

text \<open>\<open>s.split(sep)\<close> for a separator of one character: never the empty list.\<close>

fun split :: "nat \<Rightarrow> pystr \<Rightarrow> pystr list" where
  "split sep [] = [[]]"
| "split sep (c # cs) =
     (if c = sep then [] # split sep cs
      else (case split sep cs of
              [] \<Rightarrow> [[c]]
            | l # ls \<Rightarrow> (c # l) # ls))"

text \<open>\<open>sep.join(ls)\<close>.\<close>

fun join :: "pystr \<Rightarrow> pystr list \<Rightarrow> pystr" where
  "join sep [] = []"
| "join sep [l] = l"
| "join sep (l # ls) = l @ sep @ join sep ls"

text \<open>
  \<open>s.replace(old, new)\<close> for a pattern \<open>old\<close> of one character, the only way
  \<open>format_output\<close> calls it: every occurrence is replaced, left to right.
\<close>

definition replace :: "nat \<Rightarrow> pystr \<Rightarrow> pystr \<Rightarrow> pystr" where
  "replace old new s = concat (map (\<lambda>c. if c = old then new else [c]) s)"

section \<open>The output formatter\<close>

text \<open>The loop of the disassembly branch: strip each line on the right, keep it if not empty.\<close>

fun strip_lines :: "pystr list \<Rightarrow> pystr list" where
  "strip_lines [] = []"
| "strip_lines (line # rest) =
     (let line' = rstrip line
      in if line' \<noteq> [] then line' # strip_lines rest else strip_lines rest)"

text \<open>The comprehension of the bytecode branch:
  \<open>[line.rstrip() for line in lines if line.strip()]\<close>.\<close>

definition nonblank_lines :: "pystr list \<Rightarrow> pystr list" where
  "nonblank_lines ls = map rstrip (filter (\<lambda>line. strip line \<noteq> []) ls)"

definition format_output :: "pystr \<Rightarrow> bool \<Rightarrow> pystr" where
  "format_output content is_disassembly =
     (if content = [] then content
      else if is_disassembly then
        join [NL] (strip_lines (split NL content))
      else
        (let formatted = replace SEMI [SEMI, NL] content;
             formatted = replace LBRACE [LBRACE, NL] formatted;
             formatted = replace RBRACE [NL, RBRACE] formatted;
             ls = split NL formatted
         in join [NL] (nonblank_lines ls)))"


section \<open>JSON values as Python sees them\<close>

text \<open>
  \<open>request.get_json()\<close> yields whatever JSON value the client sent: \<open>None\<close>,
  a bool, an int, a float, a str, a list or a dict. A dict is an association list,
  looked up with \<open>map_of\<close>.
\<close>

datatype pyfloat = Finite real | Infinite bool | NaN

datatype json =
    JNull
  | JBool bool
  | JInt int
  | JFloat pyfloat
  | JStr pystr
  | JArr "json list"
  | JObj "(pystr \<times> json) list"

text \<open>The exceptions the handler can meet; \<open>BadRequest\<close> stands for what
  \<open>get_json\<close> raises on a body it cannot read. Each derives from \<open>Exception\<close>.\<close>

datatype pyexn =
    TimeoutExpired
  | TypeError
  | KeyError
  | AttributeError
  | UnicodeEncodeError
  | OSError
  | BadRequest

text \<open>Python truthiness, as tested by \<open>not data\<close> and \<open>if disassembly\<close>.\<close>

fun truthy :: "json \<Rightarrow> bool" where
  "truthy JNull = False"
| "truthy (JBool b) = b"
| "truthy (JInt i) = (i \<noteq> 0)"
| "truthy (JFloat f) = (f \<noteq> Finite 0)"
| "truthy (JStr s) = (s \<noteq> [])"
| "truthy (JArr xs) = (xs \<noteq> [])"
| "truthy (JObj kvs) = (kvs \<noteq> [])"

text \<open>\<open>k in s\<close> for two strings: \<open>k\<close> occurs in \<open>s\<close>.\<close>

fun is_substring :: "pystr \<Rightarrow> pystr \<Rightarrow> bool" where
  "is_substring k [] = (k = [])"
| "is_substring k (c # cs) = (take (length k) (c # cs) = k \<or> is_substring k cs)"

text \<open>
  \<open>k in data\<close>: a key test on a dict, an element test on a list, a substring test on a
  str, and a \<open>TypeError\<close> on \<open>None\<close>, a bool or a number.
\<close>

fun py_in :: "pystr \<Rightarrow> json \<Rightarrow> pyexn + bool" where
  "py_in k (JObj kvs) = Inr (k \<in> set (map fst kvs))"
| "py_in k (JArr xs) = Inr (JStr k \<in> set xs)"
| "py_in k (JStr s) = Inr (is_substring k s)"
| "py_in k JNull = Inl TypeError"
| "py_in k (JBool b) = Inl TypeError"
| "py_in k (JInt i) = Inl TypeError"
| "py_in k (JFloat f) = Inl TypeError"

text \<open>\<open>data[k]\<close> for a str key \<open>k\<close>.\<close>

fun py_getitem :: "json \<Rightarrow> pystr \<Rightarrow> pyexn + json" where
  "py_getitem (JObj kvs) k = (case map_of kvs k of None \<Rightarrow> Inl KeyError | Some v \<Rightarrow> Inr v)"
| "py_getitem (JArr xs) k = Inl TypeError"
| "py_getitem (JStr s) k = Inl TypeError"
| "py_getitem JNull k = Inl TypeError"
| "py_getitem (JBool b) k = Inl TypeError"
| "py_getitem (JInt i) k = Inl TypeError"
| "py_getitem (JFloat f) k = Inl TypeError"

text \<open>\<open>data.get(k, default)\<close>: only a dict has the method.\<close>

fun py_get :: "json \<Rightarrow> pystr \<Rightarrow> json \<Rightarrow> pyexn + json" where
  "py_get (JObj kvs) k d = Inr (case map_of kvs k of None \<Rightarrow> d | Some v \<Rightarrow> v)"
| "py_get (JArr xs) k d = Inl AttributeError"
| "py_get (JStr s) k d = Inl AttributeError"
| "py_get JNull k d = Inl AttributeError"
| "py_get (JBool b) k d = Inl AttributeError"
| "py_get (JInt i) k d = Inl AttributeError"
| "py_get (JFloat f) k d = Inl AttributeError"

section \<open>The world outside the handler\<close>

text \<open>
  The file system maps a path string to a directory or to a file with its text (what a
  text-mode read of the file returns). The trace records every external command that
  \<open>subprocess.run\<close> was asked to run, in order.
\<close>

datatype entry = Dir | File pystr

type_synonym fs = "pystr \<Rightarrow> entry option"

record completed =
  returncode :: int
  stdout :: pystr
  stderr :: pystr

text \<open>
  What an external process does when started on a file system: it cannot be started, it
  ends by itself after some seconds with a result and a new file system, or it never ends.
  The result is the \<open>CompletedProcess\<close> that \<open>subprocess.run\<close> hands back, its two
  streams being the texts that \<open>text=True\<close> decodes them to; a process whose output
  has no decoding is not among the behaviours.
\<close>

datatype behaviour = CannotStart | Terminates real completed fs | NeverTerminates

text \<open>One call of \<open>subprocess.run\<close>: the command, \<open>cwd\<close>, \<open>timeout\<close>, and what the
  process did.\<close>

datatype event =
  Run (ev_cmd: "pystr list") (ev_cwd: "pystr option") (ev_timeout: "real option")
      (ev_behaviour: behaviour)

record world =
  fs :: fs
  trace :: "event list"

text \<open>What \<open>subprocess.run\<close> sees of a process.\<close>

datatype outcome = Exited completed | TimedOut | NotStarted | Hung

text \<open>
  What becomes of a text given to \<open>print\<close>: it is written, or the encoding of the
  console has no bytes for it, or the console cannot be written to.
\<close>

datatype printing = Printed | Unencodable | Broken

text \<open>
  Everything the source leaves to its environment: the path separator of \<open>str(Path)\<close>,
  the text of \<open>str(e)\<close>, the name \<open>tempfile\<close> chooses (or its failure), the behaviour
  of a command given its arguments and working directory, the file system a process
  leaves when it is killed at its timeout, what the console does with a text, and the
  files \<open>os.unlink\<close> is refused on.
\<close>

record env =
  sep :: pystr
  exn_str :: "pyexn \<Rightarrow> pystr"
  new_temp :: "fs \<Rightarrow> pyexn + pystr"
  proc :: "pystr list \<Rightarrow> pystr option \<Rightarrow> fs \<Rightarrow> behaviour"
  killed :: "pystr list \<Rightarrow> pystr option \<Rightarrow> real \<Rightarrow> fs \<Rightarrow> fs"
  console :: "pystr \<Rightarrow> printing"
  unlink_denied :: "pystr \<Rightarrow> bool"

text \<open>A call returns a value, raises, or never returns; it leaves a world behind.\<close>

datatype 'a result = Return 'a | Raise pyexn | Hang

definition and_then ::
  "'a result \<times> world \<Rightarrow> ('a \<Rightarrow> world \<Rightarrow> 'b result \<times> world) \<Rightarrow> 'b result \<times> world" where
  "and_then m f =
     (case m of
        (Return x, w) \<Rightarrow> f x w
      | (Raise e, w) \<Rightarrow> (Raise e, w)
      | (Hang, w) \<Rightarrow> (Hang, w))"

definition of_sum :: "pyexn + 'a \<Rightarrow> world \<Rightarrow> 'a result \<times> world" where
  "of_sum v w = (case v of Inl e \<Rightarrow> (Raise e, w) | Inr x \<Rightarrow> (Return x, w))"

text \<open>
  \<open>print(t)\<close>: a \<open>UnicodeEncodeError\<close> where the console cannot encode the text, an
  \<open>OSError\<close> where it cannot be written to.
\<close>

definition py_print :: "env \<Rightarrow> pystr \<Rightarrow> world \<Rightarrow> unit result \<times> world" where
  "py_print e t w =
     (case console e t of
        Printed \<Rightarrow> (Return (), w)
      | Unencodable \<Rightarrow> (Raise UnicodeEncodeError, w)
      | Broken \<Rightarrow> (Raise OSError, w))"

text \<open>\<open>str(i)\<close> for an int: its decimal digits, with a minus sign below zero.\<close>

function str_nat :: "nat \<Rightarrow> pystr" where
  "str_nat n = (if n < 10 then [48 + n] else str_nat (n div 10) @ [48 + n mod 10])"
  by pat_completeness auto
termination
  by (relation "measure (\<lambda>n. n)") auto

definition str_int :: "int \<Rightarrow> pystr" where
  "str_int i = (if i < 0 then 45 # str_nat (nat (- i)) else str_nat (nat i))"

text \<open>
  \<open>subprocess.run(cmd, cwd=..., timeout=...)\<close>: with a timeout, a process still running
  when it expires is killed and \<open>TimeoutExpired\<close> is raised; without one the call waits
  for the process, for ever if need be.
\<close>

definition observe :: "behaviour \<Rightarrow> real option \<Rightarrow> outcome" where
  "observe b tmo =
     (case b of
        CannotStart \<Rightarrow> NotStarted
      | Terminates d c f \<Rightarrow>
          (case tmo of None \<Rightarrow> Exited c | Some t \<Rightarrow> if t < d then TimedOut else Exited c)
      | NeverTerminates \<Rightarrow> (case tmo of None \<Rightarrow> Hung | Some t \<Rightarrow> TimedOut))"

definition fs_after :: "env \<Rightarrow> pystr list \<Rightarrow> pystr option \<Rightarrow> real option \<Rightarrow> fs \<Rightarrow> fs" where
  "fs_after e cmd cwd tmo f =
     (case proc e cmd cwd f of
        CannotStart \<Rightarrow> f
      | Terminates d c f' \<Rightarrow>
          (case tmo of None \<Rightarrow> f' | Some t \<Rightarrow> if t < d then killed e cmd cwd t f else f')
      | NeverTerminates \<Rightarrow> (case tmo of None \<Rightarrow> f | Some t \<Rightarrow> killed e cmd cwd t f))"

definition subprocess_run ::
  "env \<Rightarrow> pystr list \<Rightarrow> pystr option \<Rightarrow> real option \<Rightarrow> world \<Rightarrow> completed result \<times> world" where
  "subprocess_run e cmd cwd tmo w =
     (let b = proc e cmd cwd (fs w);
          w' = \<lparr>fs = fs_after e cmd cwd tmo (fs w), trace = trace w @ [Run cmd cwd tmo b]\<rparr>
      in (case observe b tmo of
            Exited c \<Rightarrow> Return c
          | TimedOut \<Rightarrow> Raise TimeoutExpired
          | NotStarted \<Rightarrow> Raise OSError
          | Hung \<Rightarrow> Hang, w'))"

subsection \<open>Paths\<close>

text \<open>A \<open>pathlib.Path\<close> is its list of components; \<open>p / name\<close> appends one.\<close>

type_synonym path = "pystr list"

definition MOONSEC_PATH :: path where
  "MOONSEC_PATH = [py ''MoonsecDeobfuscator-master'']"

definition BUILD_PATH :: path where
  "BUILD_PATH = MOONSEC_PATH @ [py ''bin''] @ [py ''Release''] @ [py ''net8.0'']"

definition str_path :: "env \<Rightarrow> path \<Rightarrow> pystr" where
  "str_path e p = join (sep e) p"

definition os_path_exists :: "world \<Rightarrow> pystr \<Rightarrow> bool" where
  "os_path_exists w p = (fs w p \<noteq> None)"

definition path_exists :: "env \<Rightarrow> world \<Rightarrow> path \<Rightarrow> bool" where
  "path_exists e w p = os_path_exists w (str_path e p)"


section \<open>Building the tool\<close>

definition clean_cmd :: "pystr list" where
  "clean_cmd = [py ''dotnet'', py ''clean'', py ''-c'', py ''Release'']"

definition build_cmd :: "pystr list" where
  "build_cmd = [py ''dotnet'', py ''build'', py ''-c'', py ''Release'']"

text \<open>
  The four lines \<open>build_moonsec\<close> prints; each begins with a character outside
  ASCII: a hammer (U+1F528), a check mark (U+2705), a cross mark (U+274C).
\<close>

definition building_line :: pystr where
  "building_line = 128296 # py '' Building Moonsec Deobfuscator...''"

definition build_ok_line :: pystr where
  "build_ok_line = 9989 # py '' Build successful!''"

definition build_failed_line :: "pystr \<Rightarrow> pystr" where
  "build_failed_line err = 10060 # py '' Build failed: '' @ err"

definition build_error_line :: "pystr \<Rightarrow> pystr" where
  "build_error_line msg = 10060 # py '' Build error: '' @ msg"

text \<open>
  The \<open>try\<close> of \<open>build_moonsec\<close>, lines 32 to 54: clean, then build, both in the
  tool directory and without a timeout; the result of the clean is dropped.
\<close>

definition build_try :: "env \<Rightarrow> world \<Rightarrow> bool result \<times> world" where
  "build_try e w =
     and_then (py_print e building_line w) (\<lambda>u w0.
     and_then (subprocess_run e clean_cmd (Some (str_path e MOONSEC_PATH)) None w0) (\<lambda>r0 w1.
     and_then (subprocess_run e build_cmd (Some (str_path e MOONSEC_PATH)) None w1) (\<lambda>r w2.
       if returncode r = 0
       then and_then (py_print e build_ok_line w2) (\<lambda>u w3. (Return True, w3))
       else and_then (py_print e (build_failed_line (stderr r)) w2)
              (\<lambda>u w3. (Return False, w3)))))"

text \<open>
  \<open>build_moonsec\<close>: an exception of the \<open>try\<close> is printed and makes the answer
  \<open>False\<close>; an exception of that last \<open>print\<close> leaves the function.
\<close>

definition build_moonsec :: "env \<Rightarrow> world \<Rightarrow> bool result \<times> world" where
  "build_moonsec e w =
     (case build_try e w of
        (Return built, w1) \<Rightarrow> (Return built, w1)
      | (Raise x, w1) \<Rightarrow>
          and_then (py_print e (build_error_line (exn_str e x)) w1)
            (\<lambda>u w2. (Return False, w2))
      | (Hang, w1) \<Rightarrow> (Hang, w1))"

section \<open>The endpoint POST /deobfuscate\<close>

text \<open>
  \<open>jsonify(...)\<close> with its status: the error body with its \<open>error\<close> text, or the
  success body with \<open>result\<close>, \<open>format\<close> and \<open>original_filename\<close>, in this order.
\<close>

datatype payload =
    Error pystr
  | Success pystr pystr json

datatype response = Response nat payload

fun success :: "payload \<Rightarrow> bool" where
  "success (Error msg) = False"
| "success (Success res fmt name) = True"

fun status :: "response \<Rightarrow> nat" where
  "status (Response n b) = n"

fun payload_of :: "response \<Rightarrow> payload" where
  "payload_of (Response n b) = b"

subsection \<open>The temporary input file\<close>

definition is_surrogate :: "nat \<Rightarrow> bool" where
  "is_surrogate c \<longleftrightarrow> 55296 \<le> c \<and> c \<le> 57343"

text \<open>
  \<open>f.write(v)\<close> on a text file opened with \<open>encoding='utf-8'\<close>: a \<open>TypeError\<close> unless
  \<open>v\<close> is a str, a \<open>UnicodeEncodeError\<close> when the str holds a lone surrogate.
\<close>

fun writable :: "json \<Rightarrow> pyexn + pystr" where
  "writable (JStr s) = (if list_ex is_surrogate s then Inl UnicodeEncodeError else Inr s)"
| "writable JNull = Inl TypeError"
| "writable (JBool b) = Inl TypeError"
| "writable (JInt i) = Inl TypeError"
| "writable (JFloat f) = Inl TypeError"
| "writable (JArr xs) = Inl TypeError"
| "writable (JObj kvs) = Inl TypeError"

text \<open>
  The \<open>with tempfile.NamedTemporaryFile(..., delete=False)\<close> block: the file is created
  first, then \<open>data['content']\<close> is read and written; the file stays whatever happens
  in the block. The result is \<open>f.name\<close>.
\<close>

definition write_temp :: "env \<Rightarrow> json \<Rightarrow> world \<Rightarrow> pystr result \<times> world" where
  "write_temp e data w =
     (case new_temp e (fs w) of
        Inl x \<Rightarrow> (Raise x, w)
      | Inr name \<Rightarrow>
          (let w1 = w\<lparr>fs := (fs w)(name \<mapsto> File [])\<rparr>
           in and_then (of_sum (py_getitem data (py ''content'')) w1) (\<lambda>v w2.
              and_then (of_sum (writable v) w2) (\<lambda>s w3.
                (Return name, w3\<lparr>fs := (fs w3)(name \<mapsto> File s)\<rparr>)))))"

subsection \<open>Finding the executable\<close>

definition possible_paths :: "path list" where
  "possible_paths =
     [BUILD_PATH @ [py ''MoonsecDeobfuscator.exe''],
      BUILD_PATH @ [py ''MoonsecDeobfuscator''],
      MOONSEC_PATH @ [py ''bin''] @ [py ''Release''] @ [py ''net8.0'']
        @ [py ''MoonsecDeobfuscator.exe''],
      MOONSEC_PATH @ [py ''bin''] @ [py ''Release''] @ [py ''net8.0'']
        @ [py ''MoonsecDeobfuscator'']]"

text \<open>The \<open>for path in possible_paths\<close> loop with its \<open>break\<close>.\<close>

fun find_exe :: "env \<Rightarrow> world \<Rightarrow> path list \<Rightarrow> path option" where
  "find_exe e w [] = None"
| "find_exe e w (p # ps) = (if path_exists e w p then Some p else find_exe e w ps)"

definition not_found :: response where
  "not_found = Response 500 (Error (py ''Moonsec executable not found. Try building first.''))"

text \<open>Lines 124 to 148: the command to run, or the answer that there is none.\<close>

definition select_cmd :: "env \<Rightarrow> world \<Rightarrow> pystr \<Rightarrow> pystr \<Rightarrow> pystr \<Rightarrow> response + pystr list" where
  "select_cmd e w command input_path output_path =
     (case find_exe e w possible_paths of
        None \<Rightarrow>
          (let dll_path = BUILD_PATH @ [py ''MoonsecDeobfuscator.dll'']
           in if path_exists e w dll_path
              then Inr [py ''dotnet'', str_path e dll_path, command,
                        py ''-i'', input_path, py ''-o'', output_path]
              else Inl not_found)
      | Some exe_path \<Rightarrow>
          Inr [str_path e exe_path, command, py ''-i'', input_path, py ''-o'', output_path])"

definition build_failed :: response where
  "build_failed = Response 500 (Error (py ''Failed to build Moonsec tool''))"

text \<open>
  Lines 116 to 148, the tool locator: build if the build directory is missing, then look
  for the executable.
\<close>

definition locate ::
  "env \<Rightarrow> pystr \<Rightarrow> pystr \<Rightarrow> pystr \<Rightarrow> world \<Rightarrow> (response + pystr list) result \<times> world" where
  "locate e command input_path output_path w =
     (if \<not> path_exists e w BUILD_PATH then
        and_then (build_moonsec e w) (\<lambda>built w1.
          if \<not> built then (Return (Inl build_failed), w1)
          else (Return (select_cmd e w1 command input_path output_path), w1))
      else (Return (select_cmd e w command input_path output_path), w))"

subsection \<open>Running the tool and reading its output\<close>

definition tool_failed :: "completed \<Rightarrow> response" where
  "tool_failed r =
     (let error_msg = (if stderr r \<noteq> [] then strip (stderr r) else py ''Unknown error'')
      in Response 500 (Error (py ''Deobfuscation failed: '' @ error_msg)))"

definition no_output :: response where
  "no_output = Response 500 (Error (py ''Output file was not created''))"

text \<open>Lines 176 to 194. Opening a directory for reading raises.\<close>

definition read_output :: "json \<Rightarrow> bool \<Rightarrow> pystr \<Rightarrow> world \<Rightarrow> response result \<times> world" where
  "read_output data disassembly output_path w =
     (case fs w output_path of
        None \<Rightarrow> (Return no_output, w)
      | Some Dir \<Rightarrow> (Raise OSError, w)
      | Some (File output_content) \<Rightarrow>
          and_then (of_sum (py_get data (py ''pretty'') (JBool True)) w) (\<lambda>pretty w1.
            (let output_content' =
               (if truthy pretty then format_output output_content disassembly
                else output_content)
             in and_then (of_sum (py_get data (py ''filename'') (JStr (py ''unknown.lua''))) w1)
                  (\<lambda>filename w2.
                     (Return (Response 200 (Success output_content'
                        (if disassembly then py ''disassembly'' else py ''bytecode'')
                        filename)), w2)))))"

text \<open>
  Lines 150 to 194: the command is printed, run with a timeout of 30 seconds, its return
  code and the first 200 characters of what it wrote are printed, then its exit code
  is looked at.
\<close>

definition run_tool ::
  "env \<Rightarrow> json \<Rightarrow> bool \<Rightarrow> pystr \<Rightarrow> pystr list \<Rightarrow> world \<Rightarrow> response result \<times> world" where
  "run_tool e data disassembly output_path cmd w =
     and_then (py_print e (py ''Running command: '' @ join (py '' '') cmd) w) (\<lambda>u w0.
     and_then (subprocess_run e cmd None (Some 30) w0) (\<lambda>r w1.
     and_then (py_print e (py ''Return code: '' @ str_int (returncode r)) w1) (\<lambda>u w2.
     and_then (if stdout r \<noteq> [] then py_print e (py ''STDOUT: '' @ take 200 (stdout r)) w2
               else (Return (), w2)) (\<lambda>u w3.
     and_then (if stderr r \<noteq> [] then py_print e (py ''STDERR: '' @ take 200 (stderr r)) w3
               else (Return (), w3)) (\<lambda>u w4.
       if returncode r \<noteq> 0 then (Return (tool_failed r), w4)
       else read_output data disassembly output_path w4)))))"

text \<open>The body of the inner \<open>try\<close>, lines 111 to 194.\<close>

definition try_body :: "env \<Rightarrow> json \<Rightarrow> pystr \<Rightarrow> pystr \<Rightarrow> world \<Rightarrow> response result \<times> world" where
  "try_body e data input_path output_path w =
     and_then (of_sum (py_get data (py ''disassembly'') (JBool False)) w) (\<lambda>d w0.
       (let disassembly = truthy d;
            command = (if disassembly then py ''-dis'' else py ''-dev'')
        in and_then (locate e command input_path output_path w0) (\<lambda>found w1.
             (case found of
                Inl resp \<Rightarrow> (Return resp, w1)
              | Inr cmd \<Rightarrow> run_tool e data disassembly output_path cmd w1))))"

subsection \<open>Cleaning up\<close>

text \<open>\<open>os.unlink(p)\<close>: removes a file; raises on a directory, a missing path or a refusal.\<close>

definition unlink :: "env \<Rightarrow> pystr \<Rightarrow> world \<Rightarrow> unit result \<times> world" where
  "unlink e p w =
     (case fs w p of
        Some (File t) \<Rightarrow>
          if unlink_denied e p then (Raise OSError, w)
          else (Return (), w\<lparr>fs := (fs w)(p := None)\<rparr>)
      | Some Dir \<Rightarrow> (Raise OSError, w)
      | None \<Rightarrow> (Raise OSError, w))"

text \<open>The \<open>finally\<close> block, lines 206 to 214: one \<open>try\<close> around both deletions,
  \<open>except: pass\<close>.\<close>

definition cleanup :: "env \<Rightarrow> pystr \<Rightarrow> pystr \<Rightarrow> world \<Rightarrow> world" where
  "cleanup e input_path output_path w =
     snd (and_then (if os_path_exists w input_path then unlink e input_path w
                    else (Return (), w)) (\<lambda>u w1.
            if os_path_exists w1 output_path then unlink e output_path w1
            else (Return (), w1)))"

definition timed_out :: response where
  "timed_out = Response 500 (Error (py ''Process timed out after 30 seconds''))"

text \<open>The inner \<open>try\<close> with its handlers and its \<open>finally\<close>, lines 110 to 214.\<close>

definition try_block :: "env \<Rightarrow> json \<Rightarrow> pystr \<Rightarrow> pystr \<Rightarrow> world \<Rightarrow> response result \<times> world" where
  "try_block e data input_path output_path w =
     (case try_body e data input_path output_path w of
        (Return resp, w1) \<Rightarrow> (Return resp, cleanup e input_path output_path w1)
      | (Raise x, w1) \<Rightarrow>
          (Return (if x = TimeoutExpired then timed_out
                   else Response 500 (Error (py ''Processing error: '' @ exn_str e x))),
           cleanup e input_path output_path w1)
      | (Hang, w1) \<Rightarrow> (Hang, w1))"

subsection \<open>The handler\<close>

definition no_content :: response where
  "no_content = Response 400 (Error (py ''No content provided''))"

definition moonsec_missing :: "env \<Rightarrow> response" where
  "moonsec_missing e =
     Response 500 (Error (py ''MoonsecDeobfuscator not found at: '' @ str_path e MOONSEC_PATH))"

text \<open>
  What the outer \<open>try\<close> runs, lines 88 to 214; \<open>body\<close> is what \<open>request.get_json()\<close>
  does: it raises or returns the parsed value.
\<close>

definition deobfuscate_try :: "env \<Rightarrow> pyexn + json \<Rightarrow> world \<Rightarrow> response result \<times> world" where
  "deobfuscate_try e body w =
     and_then (of_sum body w) (\<lambda>data w0.
       if \<not> truthy data then (Return no_content, w0)
       else and_then (of_sum (py_in (py ''content'') data) w0) (\<lambda>has_content w1.
         if \<not> has_content then (Return no_content, w1)
         else if \<not> path_exists e w1 MOONSEC_PATH then (Return (moonsec_missing e), w1)
         else and_then (write_temp e data w1) (\<lambda>input_path w2.
           (let output_path = input_path @ py ''.output''
            in try_block e data input_path output_path w2))))"

text \<open>The handler: the outer \<open>except Exception\<close> turns what escapes into a 500.\<close>

definition deobfuscate :: "env \<Rightarrow> pyexn + json \<Rightarrow> world \<Rightarrow> response result \<times> world" where
  "deobfuscate e body w =
     (case deobfuscate_try e body w of
        (Raise x, w1) \<Rightarrow> (Return (Response 500 (Error (py ''Server error: '' @ exn_str e x))), w1)
      | (Return resp, w1) \<Rightarrow> (Return resp, w1)
      | (Hang, w1) \<Rightarrow> (Hang, w1))"

text \<open>The commands run while one request is served.\<close>

definition commands_run :: "env \<Rightarrow> pyexn + json \<Rightarrow> world \<Rightarrow> event list" where
  "commands_run e body w = drop (length (trace w)) (trace (snd (deobfuscate e body w)))"


section \<open>Notions the properties are stated with\<close>

text \<open>A process runs longer than \<open>t\<close> seconds.\<close>

definition exceeds :: "behaviour \<Rightarrow> real \<Rightarrow> bool" where
  "exceeds b t = (case b of CannotStart \<Rightarrow> False | Terminates d c f \<Rightarrow> t < d | NeverTerminates \<Rightarrow> True)"

text \<open>The value of an optional request field, with its default.\<close>

definition requested :: "(pystr \<times> json) list \<Rightarrow> pystr \<Rightarrow> json \<Rightarrow> json" where
  "requested kvs k d = (case map_of kvs k of None \<Rightarrow> d | Some v \<Rightarrow> v)"

text \<open>A JSON value has a field \<open>k\<close>: it is an object with that key.\<close>

fun has_field :: "json \<Rightarrow> pystr \<Rightarrow> bool" where
  "has_field (JObj kvs) k = (k \<in> set (map fst kvs))"
| "has_field (JArr xs) k = False"
| "has_field (JStr s) k = False"
| "has_field JNull k = False"
| "has_field (JBool b) k = False"
| "has_field (JInt i) k = False"
| "has_field (JFloat f) k = False"

text \<open>
  The bodies the validation turns away: the falsy ones, an object without the key
  \<open>content\<close>, a list without the element \<open>'content'\<close>, a str in which \<open>content\<close> does
  not occur.
\<close>

fun lacks_content :: "json \<Rightarrow> bool" where
  "lacks_content (JObj kvs) = (py ''content'' \<notin> set (map fst kvs))"
| "lacks_content (JArr xs) = (JStr (py ''content'') \<notin> set xs)"
| "lacks_content (JStr s) = (\<not> is_substring (py ''content'') s)"
| "lacks_content JNull = True"
| "lacks_content (JBool b) = (\<not> b)"
| "lacks_content (JInt i) = (i = 0)"
| "lacks_content (JFloat f) = (f = Finite 0)"

text \<open>The first path of a list that exists.\<close>

definition first_existing :: "env \<Rightarrow> world \<Rightarrow> path list \<Rightarrow> path \<Rightarrow> bool" where
  "first_existing e w ps p \<longleftrightarrow>
     (\<exists>i < length ps. ps ! i = p \<and> path_exists e w p \<and> (\<forall>j < i. \<not> path_exists e w (ps ! j)))"

text \<open>
  What the locator is to find on a file system: the command of the first candidate
  that exists; with no candidate, \<open>dotnet\<close> on the DLL if that exists; else the answer
  that there is no executable.
\<close>

definition dll :: path where
  "dll = BUILD_PATH @ [py ''MoonsecDeobfuscator.dll'']"

definition located ::
  "env \<Rightarrow> world \<Rightarrow> pystr \<Rightarrow> pystr \<Rightarrow> pystr \<Rightarrow> response + pystr list \<Rightarrow> bool" where
  "located e w command inp outp x \<longleftrightarrow>
     (\<exists>p. first_existing e w possible_paths p \<and>
          x = Inr [str_path e p, command, py ''-i'', inp, py ''-o'', outp]) \<or>
     ((\<forall>p\<in>set possible_paths. \<not> path_exists e w p) \<and> path_exists e w dll \<and>
      x = Inr [py ''dotnet'', str_path e dll, command, py ''-i'', inp, py ''-o'', outp]) \<or>
     ((\<forall>p\<in>set possible_paths. \<not> path_exists e w p) \<and> \<not> path_exists e w dll \<and>
      x = Inl (Response 500 (Error (py ''Moonsec executable not found. Try building first.''))))"



text \<open>A bool or a number.\<close>

fun scalar :: "json \<Rightarrow> bool" where
  "scalar (JBool b) = True"
| "scalar (JInt i) = True"
| "scalar (JFloat f) = True"
| "scalar JNull = False"
| "scalar (JStr s) = False"
| "scalar (JArr xs) = False"
| "scalar (JObj kvs) = False"

text \<open>The formatter's three replacements at once, character by character.\<close>

definition brk :: "nat \<Rightarrow> pystr" where
  "brk c = (if c = SEMI then [SEMI, NL] else if c = LBRACE then [LBRACE, NL]
            else if c = RBRACE then [NL, RBRACE] else [c])"

definition breaks :: "pystr \<Rightarrow> pystr" where
  "breaks s = concat (map brk s)"

text \<open>
  The shape of a line after the replacements: no line break, a semicolon or an opening
  brace only as its last character, a closing brace only as its first.
\<close>

fun tail_only :: "pystr \<Rightarrow> bool" where
  "tail_only [] = True"
| "tail_only [c] = (c \<noteq> RBRACE \<and> c \<noteq> NL)"
| "tail_only (c # d # cs) =
     (c \<noteq> SEMI \<and> c \<noteq> LBRACE \<and> c \<noteq> RBRACE \<and> c \<noteq> NL \<and> tail_only (d # cs))"

definition broken_line :: "pystr \<Rightarrow> bool" where
  "broken_line l =
     (case l of [] \<Rightarrow> True | c # cs \<Rightarrow> if c = RBRACE then tail_only cs else tail_only l)"

text \<open>
  What a request may run: first the commands of one build, none of them with a timeout
  and the build command at most once; then at most one command with the timeout of 30
  seconds, the tool, whose behaviour decides the answer.
\<close>

definition build_only :: "event list \<Rightarrow> bool" where
  "build_only pre \<longleftrightarrow>
     (\<forall>ev\<in>set pre. ev_timeout ev = None \<and> (ev_cmd ev = clean_cmd \<or> ev_cmd ev = build_cmd)) \<and>
     length (filter (\<lambda>ev. ev_cmd ev = build_cmd) pre) \<le> 1"

text \<open>The console prints every text.\<close>

definition console_ok :: "env \<Rightarrow> bool" where
  "console_ok e \<longleftrightarrow> (\<forall>t. console e t = Printed)"

text \<open>The lines printed after the tool has ended, and the first exception of printing
  a list of lines, if any.\<close>

definition log_lines :: "completed \<Rightarrow> pystr list" where
  "log_lines r =
     [py ''Return code: '' @ str_int (returncode r)]
     @ (if stdout r \<noteq> [] then [py ''STDOUT: '' @ take 200 (stdout r)] else [])
     @ (if stderr r \<noteq> [] then [py ''STDERR: '' @ take 200 (stderr r)] else [])"

fun print_error :: "env \<Rightarrow> pystr list \<Rightarrow> pyexn option" where
  "print_error e [] = None"
| "print_error e (t # ts) =
     (case console e t of
        Printed \<Rightarrow> print_error e ts
      | Unencodable \<Rightarrow> Some UnicodeEncodeError
      | Broken \<Rightarrow> Some OSError)"

text \<open>
  A build that fails, as its commands show: the clean or the build could not be
  started, or the build ended with a nonzero exit code.
\<close>

definition build_fails :: "event list \<Rightarrow> bool" where
  "build_fails evs \<longleftrightarrow>
     (\<exists>cwd tmo. Run clean_cmd cwd tmo CannotStart \<in> set evs) \<or>
     (\<exists>cwd tmo. Run build_cmd cwd tmo CannotStart \<in> set evs) \<or>
     (\<exists>cwd tmo d c f. Run build_cmd cwd tmo (Terminates d c f) \<in> set evs \<and> returncode c \<noteq> 0)"

text \<open>
  The answer the inner \<open>try\<close> gives to an exception other than the timeout, and
  the answers to a failed build.
\<close>

definition processing_error :: "env \<Rightarrow> pyexn \<Rightarrow> response" where
  "processing_error e x = Response 500 (Error (py ''Processing error: '' @ exn_str e x))"

definition tool_event_ok ::
  "env \<Rightarrow> (pyexn \<Rightarrow> response result) \<Rightarrow> behaviour \<Rightarrow> response result \<Rightarrow> bool" where
  "tool_event_ok e h b r \<longleftrightarrow>
     (exceeds b 30 \<longrightarrow> r = h TimeoutExpired) \<and>
     (\<forall>d c f. b = Terminates d c f \<and> d \<le> 30 \<and> returncode c \<noteq> 0 \<longrightarrow>
        r = (case print_error e (log_lines c) of
               None \<Rightarrow> Return (tool_failed c)
             | Some x \<Rightarrow> h x))"

definition build_event_ok ::
  "env \<Rightarrow> (pyexn \<Rightarrow> response result) \<Rightarrow> event list \<Rightarrow> response result \<Rightarrow> bool" where
  "build_event_ok e h pre r \<longleftrightarrow>
     (build_fails pre \<longrightarrow>
        (r = Return build_failed \<or> r = h UnicodeEncodeError \<or> r = h OSError) \<and>
        (console_ok e \<longrightarrow> r = Return build_failed))"

definition trace_shape ::
  "env \<Rightarrow> (pyexn \<Rightarrow> response result) \<Rightarrow> event list \<Rightarrow> response result \<Rightarrow> bool" where
  "trace_shape e h evs r \<longleftrightarrow>
     (\<exists>pre. build_only pre \<and>
        ((evs = pre \<and> build_event_ok e h pre r) \<or>
         (\<exists>cmd b. evs = pre @ [Run cmd None (Some 30) b] \<and> cmd \<noteq> build_cmd \<and>
            cmd \<noteq> clean_cmd \<and> \<not> build_fails pre \<and> tool_event_ok e h b r)))"

text \<open>How the inner \<open>try\<close> answers an exception.\<close>

definition handled :: "env \<Rightarrow> pyexn \<Rightarrow> response result" where
  "handled e x = Return (if x = TimeoutExpired then timed_out else processing_error e x)"

text \<open>The result of a 200: the text the tool left in the file named by its last argument.\<close>

definition tool_left :: "event list \<Rightarrow> pystr \<Rightarrow> bool" where
  "tool_left evs out \<longleftrightarrow>
     (\<exists>cmd d c f. Run cmd None (Some 30) (Terminates d c f) \<in> set evs \<and> d \<le> 30 \<and>
        returncode c = 0 \<and> f (last cmd) = Some (File out))"

section \<open>Sample environments\<close>

fun demo_exn_str :: "pyexn \<Rightarrow> pystr" where
  "demo_exn_str TimeoutExpired = py ''Command timed out''"
| "demo_exn_str TypeError = py ''TypeError''"
| "demo_exn_str KeyError = py ''KeyError''"
| "demo_exn_str AttributeError = py ''AttributeError''"
| "demo_exn_str UnicodeEncodeError = py ''UnicodeEncodeError''"
| "demo_exn_str OSError = py ''OSError''"
| "demo_exn_str BadRequest = py ''400 Bad Request''"

definition demo_tmp :: pystr where
  "demo_tmp = py ''/tmp/tmpk3v9x1.lua''"

text \<open>A POSIX machine on which \<open>tempfile\<close> picks \<open>demo_tmp\<close>, commands behave as
  \<open>tool\<close> and the console prints everything.\<close>

definition demo_env :: "(pystr list \<Rightarrow> pystr option \<Rightarrow> fs \<Rightarrow> behaviour) \<Rightarrow> env" where
  "demo_env tool =
     \<lparr>sep = py ''/'', exn_str = demo_exn_str, new_temp = (\<lambda>f. Inr demo_tmp),
      proc = tool, killed = (\<lambda>cmd cwd t f. f), console = (\<lambda>t. Printed),
      unlink_denied = (\<lambda>p. False)\<rparr>"

text \<open>The tool directory with the built executable in it.\<close>

definition installed :: fs where
  "installed =
     [py ''MoonsecDeobfuscator-master'' \<mapsto> Dir,
      py ''MoonsecDeobfuscator-master/bin/Release/net8.0'' \<mapsto> Dir,
      py ''MoonsecDeobfuscator-master/bin/Release/net8.0/MoonsecDeobfuscator'' \<mapsto> File []]"

text \<open>The tool directory with a build directory that holds no executable and no DLL.\<close>

definition half_built :: fs where
  "half_built =
     [py ''MoonsecDeobfuscator-master'' \<mapsto> Dir,
      py ''MoonsecDeobfuscator-master/bin/Release/net8.0'' \<mapsto> Dir]"

text \<open>A tool that exits with 0 after a second, having written \<open>text\<close> to its last argument.\<close>

definition tool_writes :: "pystr \<Rightarrow> pystr list \<Rightarrow> pystr option \<Rightarrow> fs \<Rightarrow> behaviour" where
  "tool_writes text cmd cwd f =
     Terminates 1 \<lparr>returncode = 0, stdout = [], stderr = []\<rparr> (f(last cmd \<mapsto> File text))"

text \<open>A tool that exits with 1 after a second and a line on its error stream.\<close>

definition tool_fails :: "pystr list \<Rightarrow> pystr option \<Rightarrow> fs \<Rightarrow> behaviour" where
  "tool_fails cmd cwd f =
     Terminates 1 \<lparr>returncode = 1, stdout = [], stderr = py ''boom'' @ [NL]\<rparr> f"

text \<open>A tool that needs 45 seconds.\<close>

definition tool_slow :: "pystr list \<Rightarrow> pystr option \<Rightarrow> fs \<Rightarrow> behaviour" where
  "tool_slow cmd cwd f =
     Terminates 45 \<lparr>returncode = 0, stdout = [], stderr = []\<rparr> (f(last cmd \<mapsto> File (py ''x'')))"



definition demo_request :: json where
  "demo_request = JObj [(py ''content'', JStr (py ''print(1)''))]"

definition demo_world :: "fs \<Rightarrow> world" where
  "demo_world f = \<lparr>fs = f, trace = []\<rparr>"

text \<open>The command the handler builds for \<open>demo_request\<close> on \<open>installed\<close>, and the
  file system the tool then starts on.\<close>

definition demo_cmd :: "pystr list" where
  "demo_cmd =
     [py ''MoonsecDeobfuscator-master/bin/Release/net8.0/MoonsecDeobfuscator'', py ''-dev'',
      py ''-i'', demo_tmp, py ''-o'', demo_tmp @ py ''.output'']"

definition demo_fs :: fs where
  "demo_fs = installed(demo_tmp \<mapsto> File (py ''print(1)''))"


subsection \<open>Parts of the handler, named for the proofs\<close>

text \<open>
  Three pieces of the code above under a name of their own; each is proved equal to the
  piece it names (\<open>build_moonsec_unfold\<close>, \<open>run_tool_unfold\<close>, \<open>try_block_result\<close>).

  The \<open>except\<close> clause of \<open>build_moonsec\<close>, lines 56 to 58: it prints the error and
  returns \<open>False\<close>.
\<close>

definition build_except :: "env \<Rightarrow> pyexn \<Rightarrow> world \<Rightarrow> bool result \<times> world" where
  "build_except e x w =
     and_then (py_print e (build_error_line (exn_str e x)) w) (\<lambda>u w2. (Return False, w2))"

text \<open>
  Lines 153 to 194, the tool's run from the point where the command line has been
  printed: the three prints of lines 162 to 166 raise what \<open>print_error\<close> says of the
  lines they print.
\<close>

definition after_print ::
  "env \<Rightarrow> json \<Rightarrow> bool \<Rightarrow> pystr \<Rightarrow> pystr list \<Rightarrow> world \<Rightarrow> response result \<times> world" where
  "after_print e data dis outp cmd w =
     and_then (subprocess_run e cmd None (Some 30) w) (\<lambda>r w1.
       (case print_error e (log_lines r) of
          None \<Rightarrow> if returncode r \<noteq> 0 then (Return (tool_failed r), w1)
                  else read_output data dis outp w1
        | Some x \<Rightarrow> (Raise x, w1)))"

text \<open>The two \<open>except\<close> clauses of the inner \<open>try\<close>, lines 196 to 205, on a result.\<close>

definition caught :: "env \<Rightarrow> response result \<Rightarrow> response result" where
  "caught e r = (case r of Return resp \<Rightarrow> Return resp | Raise x \<Rightarrow> handled e x | Hang \<Rightarrow> Hang)"

section \<open>The formatter: lemmas\<close>

subsection \<open>Splitting and joining\<close>

lemma split_not_Nil: "split sp s \<noteq> []"
  by (induction s) (auto split: list.splits)

lemma split_no_sep: "l \<in> set (split sp s) \<Longrightarrow> sp \<notin> set l"
proof (induction s arbitrary: l)
  case Nil
  then show ?case by simp
next
  case (Cons c cs)
  show ?case
  proof (cases "c = sp")
    case True
    with Cons show ?thesis by auto
  next
    case False
    obtain h t where ht: "split sp cs = h # t"
      using split_not_Nil [of sp cs] by (cases "split sp cs") auto
    with Cons.prems False have "l = c # h \<or> l \<in> set t" by auto
    then show ?thesis
    proof
      assume "l = c # h"
      moreover have "sp \<notin> set h" using Cons.IH [of h] ht by simp
      ultimately show ?thesis using False by auto
    next
      assume "l \<in> set t"
      then show ?thesis using Cons.IH [of l] ht by simp
    qed
  qed
qed

lemma split_append: "split sp (a @ sp # b) = split sp a @ split sp b"
proof (induction a)
  case Nil
  show ?case by simp
next
  case (Cons c cs)
  obtain h t where ht: "split sp cs = h # t"
    using split_not_Nil [of sp cs] by (cases "split sp cs") auto
  with Cons show ?case by simp
qed

lemma split_id: "sp \<notin> set l \<Longrightarrow> split sp l = [l]"
  by (induction l) auto

lemma join_Cons: "ls \<noteq> [] \<Longrightarrow> join sp (l # ls) = l @ sp @ join sp ls"
  by (cases ls) auto

lemma split_join:
  "ls \<noteq> [] \<Longrightarrow> \<forall>l\<in>set ls. sp \<notin> set l \<Longrightarrow> split sp (join [sp] ls) = ls"
proof (induction ls)
  case Nil
  then show ?case by simp
next
  case (Cons l ls)
  show ?case
  proof (cases "ls = []")
    case True
    with Cons.prems show ?thesis by (simp add: split_id)
  next
    case False
    with Cons have "split sp (join [sp] ls) = ls" by simp
    moreover have "split sp l = [l]" using Cons.prems by (simp add: split_id)
    ultimately show ?thesis using False by (simp add: join_Cons split_append)
  qed
qed

lemma rstrip_idem: "rstrip (rstrip s) = rstrip s"
  by (simp add: rstrip_def dropWhile_idem)

lemma set_rstrip: "set (rstrip s) \<subseteq> set s"
  unfolding rstrip_def using set_dropWhileD [of _ is_space "rev s"] by auto

lemma rstrip_prefix: "\<exists>b. s = rstrip s @ b"
proof -
  have "s = rev (takeWhile is_space (rev s) @ dropWhile is_space (rev s))"
    by (simp only: takeWhile_dropWhile_id rev_rev_ident)
  also have "\<dots> = rstrip s @ rev (takeWhile is_space (rev s))"
    by (simp only: rev_append rstrip_def)
  finally show ?thesis ..
qed

lemma strip_rstrip: "strip (rstrip s) = strip s"
  by (simp add: strip_def rstrip_idem)

lemma strip_lines_props:
  "l \<in> set (strip_lines ls) \<Longrightarrow> l \<noteq> [] \<and> rstrip l = l \<and> (\<exists>l0\<in>set ls. l = rstrip l0)"
  by (induction ls) (auto simp: Let_def rstrip_idem split: if_splits)

lemma strip_lines_fixed:
  "\<forall>l\<in>set ls. l \<noteq> [] \<and> rstrip l = l \<Longrightarrow> strip_lines ls = ls"
  by (induction ls) (auto simp: Let_def)

lemma format_output_dis_lines:
  assumes "l \<in> set (strip_lines (split NL s))"
  shows "l \<noteq> [] \<and> rstrip l = l \<and> NL \<notin> set l"
proof -
  from strip_lines_props [OF assms] obtain l0 where
    l: "l \<noteq> []" "rstrip l = l" and l0: "l0 \<in> set (split NL s)" "l = rstrip l0" by blast
  have "NL \<notin> set l0" using l0(1) by (rule split_no_sep)
  with l0(2) set_rstrip [of l0] have "NL \<notin> set l" by auto
  with l show ?thesis by simp
qed

text \<open>
  C7: in disassembly mode the formatter is idempotent: formatting its own output again
  gives that output back, for every input string.
\<close>

theorem format_output_disassembly_idempotent:
  "format_output (format_output s True) True = format_output s True"
proof (cases "s = []")
  case True
  then show ?thesis by (simp add: format_output_def)
next
  case False
  define ls where "ls = strip_lines (split NL s)"
  have r: "format_output s True = join [NL] ls"
    using False by (simp add: format_output_def ls_def)
  show ?thesis
  proof (cases "join [NL] ls = []")
    case True
    with r show ?thesis by (simp add: format_output_def)
  next
    case nonempty: False
    then have "ls \<noteq> []" by auto
    moreover have props: "\<forall>l\<in>set ls. l \<noteq> [] \<and> rstrip l = l \<and> NL \<notin> set l"
      unfolding ls_def using format_output_dis_lines by blast
    ultimately have "split NL (join [NL] ls) = ls" by (simp add: split_join)
    moreover have "strip_lines ls = ls" using props by (simp add: strip_lines_fixed)
    ultimately have "format_output (join [NL] ls) True = join [NL] ls"
      using nonempty by (simp add: format_output_def)
    with r show ?thesis by simp
  qed
qed

subsection \<open>Lines after the replacements of the bytecode mode\<close>

lemma chars:
  "SEMI \<noteq> NL" "LBRACE \<noteq> NL" "RBRACE \<noteq> NL" "NL \<noteq> SEMI" "NL \<noteq> LBRACE" "NL \<noteq> RBRACE"
  "SEMI \<noteq> LBRACE" "SEMI \<noteq> RBRACE" "LBRACE \<noteq> SEMI" "LBRACE \<noteq> RBRACE"
  "RBRACE \<noteq> SEMI" "RBRACE \<noteq> LBRACE"
  by (simp_all add: NL_def SEMI_def LBRACE_def RBRACE_def)

lemma replace_breaks:
  "replace RBRACE [NL, RBRACE] (replace LBRACE [LBRACE, NL] (replace SEMI [SEMI, NL] s)) = breaks s"
  by (induction s) (auto simp: replace_def breaks_def brk_def chars)

lemma breaks_append: "breaks (a @ b) = breaks a @ breaks b"
  by (simp add: breaks_def)

lemma breaks_Cons: "breaks (c # cs) = brk c @ breaks cs"
  by (simp add: breaks_def)

lemma breaks_NL: "breaks (NL # s) = NL # breaks s"
  by (simp add: breaks_def brk_def chars)

lemma tail_only_Cons:
  "tail_only l \<Longrightarrow> c \<noteq> SEMI \<Longrightarrow> c \<noteq> LBRACE \<Longrightarrow> c \<noteq> RBRACE \<Longrightarrow> c \<noteq> NL \<Longrightarrow> tail_only (c # l)"
  by (cases l) auto

lemma tail_only_broken: "tail_only l \<Longrightarrow> broken_line l"
  by (cases l rule: tail_only.cases) (auto simp: broken_line_def)

lemma broken_line_RBRACE: "tail_only l \<Longrightarrow> broken_line (RBRACE # l)"
  by (simp add: broken_line_def)

lemma tail_only_hd: "tail_only (d # cs) \<Longrightarrow> d \<noteq> RBRACE \<and> d \<noteq> NL"
  by (cases cs) auto

lemma breaks_Cons_hd: "d \<noteq> RBRACE \<Longrightarrow> \<exists>r. breaks (d # cs) = d # r"
  by (simp add: breaks_def brk_def)

lemma split_Cons_ne: "c \<noteq> sp \<Longrightarrow> split sp (c # r) = h # t \<Longrightarrow> h \<noteq> []"
  by (auto split: list.splits)

lemma split_breaks_ne:
  assumes "tail_only (d # cs)" "split NL (breaks (d # cs)) = h # t"
  shows "h \<noteq> []"
proof -
  from tail_only_hd [OF assms(1)] have d: "d \<noteq> RBRACE" "d \<noteq> NL" by simp_all
  from breaks_Cons_hd [OF d(1)] obtain r where "breaks (d # cs) = d # r" by blast
  with assms(2) have "split NL (d # r) = h # t" by simp
  with d(2) show ?thesis by (rule split_Cons_ne)
qed

lemma split_breaks_shape:
  "split NL (breaks s) = h # t \<Longrightarrow> tail_only h \<and> (\<forall>l\<in>set t. broken_line l)"
proof (induction s arbitrary: h t)
  case Nil
  then show ?case by (simp add: breaks_def)
next
  case (Cons c cs)
  obtain h' t' where ht: "split NL (breaks cs) = h' # t'"
    using split_not_Nil [of NL "breaks cs"] by (cases "split NL (breaks cs)") auto
  from Cons.IH [OF ht] have ih: "tail_only h'" "\<forall>l\<in>set t'. broken_line l" by simp_all
  consider "c = SEMI" | "c = LBRACE" | "c = RBRACE" | "c = NL"
    | "c \<noteq> SEMI" "c \<noteq> LBRACE" "c \<noteq> RBRACE" "c \<noteq> NL" by blast
  then show ?case
  proof cases
    case 1
    then have "split NL (breaks (c # cs)) = [SEMI] # h' # t'"
      using ht by (simp add: breaks_Cons brk_def chars)
    with Cons.prems ih show ?thesis by (auto simp: chars tail_only_broken)
  next
    case 2
    then have "split NL (breaks (c # cs)) = [LBRACE] # h' # t'"
      using ht by (simp add: breaks_Cons brk_def chars)
    with Cons.prems ih show ?thesis by (auto simp: chars tail_only_broken)
  next
    case 3
    then have "split NL (breaks (c # cs)) = [] # (RBRACE # h') # t'"
      using ht by (simp add: breaks_Cons brk_def chars)
    with Cons.prems ih show ?thesis by (auto simp: broken_line_RBRACE)
  next
    case 4
    then have "split NL (breaks (c # cs)) = [] # h' # t'"
      using ht by (simp add: breaks_Cons brk_def chars)
    with Cons.prems ih show ?thesis by (auto simp: tail_only_broken)
  next
    case 5
    then have "split NL (breaks (c # cs)) = (c # h') # t'"
      using ht by (simp add: breaks_Cons brk_def)
    with Cons.prems ih 5 show ?thesis by (auto simp: tail_only_Cons)
  qed
qed

lemma split_breaks_broken: "l \<in> set (split NL (breaks s)) \<Longrightarrow> broken_line l"
proof -
  assume a: "l \<in> set (split NL (breaks s))"
  obtain h t where ht: "split NL (breaks s) = h # t"
    using split_not_Nil [of NL "breaks s"] by (cases "split NL (breaks s)") auto
  from split_breaks_shape [OF ht] a ht show ?thesis
    by (auto simp: tail_only_broken)
qed

lemma tail_only_prefix: "tail_only (a @ b) \<Longrightarrow> tail_only a"
proof (induction a rule: tail_only.induct)
  case 1
  then show ?case by simp
next
  case (2 c)
  then show ?case by (cases b) auto
next
  case (3 c d cs)
  then show ?case by auto
qed

lemma broken_line_prefix:
  assumes "broken_line (a @ b)"
  shows "broken_line a"
proof (cases a)
  case Nil
  then show ?thesis by (simp add: broken_line_def)
next
  case (Cons c cs)
  show ?thesis
  proof (cases "c = RBRACE")
    case True
    with assms Cons have "tail_only (cs @ b)" by (simp add: broken_line_def)
    then have "tail_only cs" by (rule tail_only_prefix)
    with Cons True show ?thesis by (simp add: broken_line_def)
  next
    case False
    with assms Cons have "tail_only (a @ b)" by (simp add: broken_line_def)
    then have "tail_only a" by (rule tail_only_prefix)
    with Cons False show ?thesis by (simp add: broken_line_def)
  qed
qed

lemma broken_line_rstrip: "broken_line l \<Longrightarrow> broken_line (rstrip l)"
proof -
  assume a: "broken_line l"
  obtain b where "l = rstrip l @ b" using rstrip_prefix by blast
  with a have "broken_line (rstrip l @ b)" by simp
  then show ?thesis by (rule broken_line_prefix)
qed

text \<open>Breaking a line that is already broken only adds empty lines around it.\<close>

lemma resplit_tail_only:
  "tail_only l \<Longrightarrow> filter (\<lambda>x. x \<noteq> []) (split NL (breaks l)) = filter (\<lambda>x. x \<noteq> []) [l]"
proof (induction l rule: tail_only.induct)
  case 1
  then show ?case by (simp add: breaks_def)
next
  case (2 c)
  then show ?case by (auto simp: breaks_def brk_def chars)
next
  case (3 c d cs)
  then have nb: "brk c = [c]" and t: "tail_only (d # cs)" by (auto simp: brk_def)
  obtain h' t' where ht: "split NL (breaks (d # cs)) = h' # t'"
    using split_not_Nil [of NL "breaks (d # cs)"] by (cases "split NL (breaks (d # cs))") auto
  have "filter (\<lambda>x. x \<noteq> []) (h' # t') = [d # cs]" using 3 t ht by simp
  moreover have "h' \<noteq> []" using t ht by (rule split_breaks_ne)
  ultimately have h': "h' = d # cs" and t': "filter (\<lambda>x. x \<noteq> []) t' = []" by auto
  have "split NL (breaks (c # d # cs)) = (c # h') # t'"
    using 3(2) ht nb by (simp add: breaks_def)
  with h' t' show ?case by simp
qed

lemma resplit_broken:
  assumes "broken_line l"
  shows "filter (\<lambda>x. x \<noteq> []) (split NL (breaks l)) = filter (\<lambda>x. x \<noteq> []) [l]"
proof (cases l)
  case Nil
  then show ?thesis by (simp add: breaks_def)
next
  case (Cons c cs)
  show ?thesis
  proof (cases "c = RBRACE")
    case False
    with assms Cons have "tail_only l" by (simp add: broken_line_def)
    then show ?thesis by (rule resplit_tail_only)
  next
    case True
    with assms Cons have t: "tail_only cs" by (simp add: broken_line_def)
    obtain h' t' where ht: "split NL (breaks cs) = h' # t'"
      using split_not_Nil [of NL "breaks cs"] by (cases "split NL (breaks cs)") auto
    from resplit_tail_only [OF t] ht
    have f: "filter (\<lambda>x. x \<noteq> []) (h' # t') = filter (\<lambda>x. x \<noteq> []) [cs]" by simp
    have "split NL (breaks l) = [] # (RBRACE # h') # t'"
      using Cons True ht by (simp add: breaks_def brk_def chars)
    moreover have "h' = cs \<and> filter (\<lambda>x. x \<noteq> []) t' = []"
    proof (cases "cs = []")
      case True
      with ht have "h' = []" by (simp add: breaks_def)
      with f True show ?thesis by simp
    next
      case False
      then obtain d ds where "cs = d # ds" by (cases cs) auto
      with t ht have "h' \<noteq> []" using split_breaks_ne by blast
      with f False show ?thesis by auto
    qed
    ultimately show ?thesis using Cons True by simp
  qed
qed

lemma strip_Nil: "strip [] = []"
  by (simp add: strip_def lstrip_def rstrip_def)

lemma nonblank_lines_filter:
  "nonblank_lines (filter (\<lambda>x. x \<noteq> []) ls) = nonblank_lines ls"
proof -
  have "(\<lambda>l. l \<noteq> [] \<and> strip l \<noteq> []) = (\<lambda>l. strip l \<noteq> [])"
    using strip_Nil by auto
  then show ?thesis by (simp add: nonblank_lines_def)
qed

lemma split_breaks_join:
  "ls \<noteq> [] \<Longrightarrow> split NL (breaks (join [NL] ls)) = concat (map (\<lambda>l. split NL (breaks l)) ls)"
proof (induction ls)
  case Nil
  then show ?case by simp
next
  case (Cons l ls)
  show ?case
  proof (cases "ls = []")
    case True
    then show ?thesis by simp
  next
    case False
    then have "breaks (join [NL] (l # ls)) = breaks l @ NL # breaks (join [NL] ls)"
      by (simp add: join_Cons breaks_append breaks_NL)
    with Cons.IH [OF False] show ?thesis by (simp add: split_append)
  qed
qed

lemma filter_resplit_lines:
  "\<forall>l\<in>set ls. broken_line l \<Longrightarrow>
   filter (\<lambda>x. x \<noteq> []) (concat (map (\<lambda>l. split NL (breaks l)) ls)) = filter (\<lambda>x. x \<noteq> []) ls"
proof (induction ls)
  case Nil
  then show ?case by simp
next
  case (Cons l ls)
  then have "filter (\<lambda>x. x \<noteq> []) (split NL (breaks l)) = filter (\<lambda>x. x \<noteq> []) [l]"
    by (simp add: resplit_broken)
  with Cons show ?case by simp
qed

lemma nonblank_lines_props:
  assumes "l \<in> set (nonblank_lines (split NL (breaks s)))"
  shows "broken_line l \<and> rstrip l = l \<and> strip l \<noteq> []"
proof -
  from assms obtain l0 where l0: "l0 \<in> set (split NL (breaks s))" "strip l0 \<noteq> []" "l = rstrip l0"
    by (auto simp: nonblank_lines_def)
  from l0(1) have "broken_line l0" by (rule split_breaks_broken)
  then have "broken_line (rstrip l0)" by (rule broken_line_rstrip)
  with l0 show ?thesis by (simp add: rstrip_idem strip_rstrip)
qed

lemma nonblank_lines_fixed:
  "\<forall>l\<in>set ls. rstrip l = l \<and> strip l \<noteq> [] \<Longrightarrow> nonblank_lines ls = ls"
  by (induction ls) (auto simp: nonblank_lines_def)

lemma format_output_bytecode_eq:
  "s \<noteq> [] \<Longrightarrow> format_output s False = join [NL] (nonblank_lines (split NL (breaks s)))"
  by (simp add: format_output_def replace_breaks)

text \<open>
  C8: in bytecode mode the formatter converges after one pass: for every input string
  \<open>s\<close>, formatting \<open>format_output s False\<close> again changes nothing.
\<close>

theorem format_output_bytecode_converges:
  "format_output (format_output s False) False = format_output s False"
proof (cases "s = []")
  case True
  then show ?thesis by (simp add: format_output_def)
next
  case False
  define ls where "ls = nonblank_lines (split NL (breaks s))"
  have r: "format_output s False = join [NL] ls"
    using False by (simp add: format_output_bytecode_eq ls_def)
  show ?thesis
  proof (cases "join [NL] ls = []")
    case True
    with r show ?thesis by (simp add: format_output_def)
  next
    case nonempty: False
    then have ne: "ls \<noteq> []" by auto
    have props: "\<forall>l\<in>set ls. broken_line l \<and> rstrip l = l \<and> strip l \<noteq> []"
      unfolding ls_def using nonblank_lines_props by blast
    have "nonblank_lines (split NL (breaks (join [NL] ls)))
          = nonblank_lines (filter (\<lambda>x. x \<noteq> []) (split NL (breaks (join [NL] ls))))"
      by (simp only: nonblank_lines_filter)
    also have "\<dots> = nonblank_lines (filter (\<lambda>x. x \<noteq> []) ls)"
      using ne props by (simp add: split_breaks_join filter_resplit_lines)
    also have "\<dots> = nonblank_lines ls" by (simp only: nonblank_lines_filter)
    also have "\<dots> = ls" using props by (simp add: nonblank_lines_fixed)
    finally have "format_output (join [NL] ls) False = join [NL] ls"
      using nonempty by (simp add: format_output_bytecode_eq)
    with r show ?thesis by simp
  qed
qed

text \<open>
  C9: in bytecode mode the input \<open>print('x;y')\<close> gets a line break after the semicolon
  inside the string literal: the result is \<open>print('x;\<close>, a line break, \<open>y')\<close>.
\<close>

theorem format_output_breaks_inside_literal:
  "format_output (py ''print('x;y')'') False = py ''print('x;'' @ [NL] @ py ''y')''"
  by (simp add: py_def format_output_def replace_def NL_def SEMI_def LBRACE_def RBRACE_def
      nonblank_lines_def strip_def rstrip_def lstrip_def is_space_def)

section \<open>The handler: lemmas\<close>

subsection \<open>Sequencing\<close>

lemma and_then_Return [simp]: "and_then (Return x, w) f = f x w"
  by (simp add: and_then_def)

lemma and_then_Raise [simp]: "and_then (Raise x, w) f = (Raise x, w)"
  by (simp add: and_then_def)

lemma and_then_Hang [simp]: "and_then (Hang, w) f = (Hang, w)"
  by (simp add: and_then_def)

lemma of_sum_Inl [simp]: "of_sum (Inl x) w = (Raise x, w)"
  by (simp add: of_sum_def)

lemma of_sum_Inr [simp]: "of_sum (Inr v) w = (Return v, w)"
  by (simp add: of_sum_def)

lemma result_world_cases:
  obtains (Return) x w' where "m = (Return x, w')"
  | (Raise) x w' where "m = (Raise x, w')"
  | (Hang) w' where "m = (Hang, w')"
proof (cases m)
  case (Pair r w')
  then show ?thesis by (cases r) (auto intro: that)
qed

subsection \<open>Printing\<close>

lemma py_print_cases:
  obtains (Printed) "console e t = Printed" "py_print e t w = (Return (), w)"
  | (Unencodable) "console e t = Unencodable" "py_print e t w = (Raise UnicodeEncodeError, w)"
  | (Broken) "console e t = Broken" "py_print e t w = (Raise OSError, w)"
  by (cases "console e t") (auto simp: py_print_def)

lemma py_print_ok: "console_ok e \<Longrightarrow> py_print e t w = (Return (), w)"
  by (simp add: console_ok_def py_print_def)

lemma not_console_ok:
  "console e t = Unencodable \<or> console e t = Broken \<Longrightarrow> \<not> console_ok e"
proof
  assume a: "console e t = Unencodable \<or> console e t = Broken" and "console_ok e"
  then have "console e t = Printed" by (simp add: console_ok_def)
  with a show False by auto
qed

lemma py_print_world: "snd (py_print e t w) = w"
  by (cases "console e t") (simp_all add: py_print_def)



subsection \<open>Running a command\<close>

lemma subprocess_run_trace:
  "trace (snd (subprocess_run e cmd cwd tmo w)) = trace w @ [Run cmd cwd tmo (proc e cmd cwd (fs w))]"
  by (simp add: subprocess_run_def Let_def)

lemma subprocess_run_result:
  "fst (subprocess_run e cmd cwd tmo w) =
     (case observe (proc e cmd cwd (fs w)) tmo of
        Exited c \<Rightarrow> Return c | TimedOut \<Rightarrow> Raise TimeoutExpired
      | NotStarted \<Rightarrow> Raise OSError | Hung \<Rightarrow> Hang)"
  by (simp add: subprocess_run_def Let_def)

lemma observe_exceeds: "exceeds b t \<Longrightarrow> observe b (Some t) = TimedOut"
  by (cases b) (auto simp: exceeds_def observe_def)

lemma observe_in_time: "d \<le> t \<Longrightarrow> observe (Terminates d c f) (Some t) = Exited c"
  by (simp add: observe_def)

text \<open>A command without a timeout, by what it does.\<close>

lemma run_forever_CannotStart:
  "proc e cmd cwd (fs w) = CannotStart \<Longrightarrow>
   subprocess_run e cmd cwd None w =
     (Raise OSError, \<lparr>fs = fs w, trace = trace w @ [Run cmd cwd None CannotStart]\<rparr>)"
  by (simp add: subprocess_run_def observe_def fs_after_def Let_def)

lemma run_forever_Terminates:
  "proc e cmd cwd (fs w) = Terminates d c f \<Longrightarrow>
   subprocess_run e cmd cwd None w =
     (Return c, \<lparr>fs = f, trace = trace w @ [Run cmd cwd None (Terminates d c f)]\<rparr>)"
  by (simp add: subprocess_run_def observe_def fs_after_def Let_def)

lemma run_forever_NeverTerminates:
  "proc e cmd cwd (fs w) = NeverTerminates \<Longrightarrow>
   subprocess_run e cmd cwd None w =
     (Hang, \<lparr>fs = fs w, trace = trace w @ [Run cmd cwd None NeverTerminates]\<rparr>)"
  by (simp add: subprocess_run_def observe_def fs_after_def Let_def)

subsection \<open>Building\<close>

lemma clean_not_build: "clean_cmd \<noteq> build_cmd"
  by (simp add: clean_cmd_def build_cmd_def py_def)

lemma build_except_cases:
  "build_except e x w = (Return False, w) \<or> build_except e x w = (Raise UnicodeEncodeError, w)
   \<or> build_except e x w = (Raise OSError, w)"
  by (cases e "build_error_line (exn_str e x)" w rule: py_print_cases)
     (simp_all add: build_except_def)

lemma build_except_ok: "console_ok e \<Longrightarrow> build_except e x w = (Return False, w)"
  by (simp add: build_except_def py_print_ok)

lemma build_moonsec_unfold:
  "build_moonsec e w =
     (case build_try e w of
        (Return built, w1) \<Rightarrow> (Return built, w1)
      | (Raise x, w1) \<Rightarrow> build_except e x w1
      | (Hang, w1) \<Rightarrow> (Hang, w1))"
  by (cases "build_try e w" rule: result_world_cases)
     (simp_all add: build_moonsec_def build_except_def)

text \<open>The \<open>try\<close> of \<open>build_moonsec\<close>, case by case.\<close>

lemma build_try_cases:
  fixes e w
  defines "m \<equiv> Some (str_path e MOONSEC_PATH)"
  obtains
    (NoConsole) x where "x = UnicodeEncodeError \<or> x = OSError" "\<not> console_ok e"
      "build_try e w = (Raise x, w)"
  | (CleanCannotStart) "proc e clean_cmd m (fs w) = CannotStart"
      "build_try e w =
         (Raise OSError, \<lparr>fs = fs w, trace = trace w @ [Run clean_cmd m None CannotStart]\<rparr>)"
  | (CleanHangs) "proc e clean_cmd m (fs w) = NeverTerminates"
      "build_try e w =
         (Hang, \<lparr>fs = fs w, trace = trace w @ [Run clean_cmd m None NeverTerminates]\<rparr>)"
  | (BuildCannotStart) d1 c1 f1 where "proc e clean_cmd m (fs w) = Terminates d1 c1 f1"
      "proc e build_cmd m f1 = CannotStart"
      "build_try e w =
         (Raise OSError, \<lparr>fs = f1, trace = trace w @ [Run clean_cmd m None (Terminates d1 c1 f1),
            Run build_cmd m None CannotStart]\<rparr>)"
  | (BuildHangs) d1 c1 f1 where "proc e clean_cmd m (fs w) = Terminates d1 c1 f1"
      "proc e build_cmd m f1 = NeverTerminates"
      "build_try e w =
         (Hang, \<lparr>fs = f1, trace = trace w @ [Run clean_cmd m None (Terminates d1 c1 f1),
            Run build_cmd m None NeverTerminates]\<rparr>)"
  | (BuildDone) d1 c1 f1 d2 c2 f2 r where "proc e clean_cmd m (fs w) = Terminates d1 c1 f1"
      "proc e build_cmd m f1 = Terminates d2 c2 f2"
      "build_try e w =
         (r, \<lparr>fs = f2, trace = trace w @ [Run clean_cmd m None (Terminates d1 c1 f1),
            Run build_cmd m None (Terminates d2 c2 f2)]\<rparr>)"
      "r = Return (returncode c2 = 0) \<or> r = Raise UnicodeEncodeError \<or> r = Raise OSError"
      "console_ok e \<Longrightarrow> r = Return (returncode c2 = 0)"
proof (cases e building_line w rule: py_print_cases)
  case Unencodable
  then have "\<not> console_ok e" using not_console_ok by blast
  with Unencodable show ?thesis by (intro NoConsole [of UnicodeEncodeError]) (simp_all add: build_try_def)
next
  case Broken
  then have "\<not> console_ok e" using not_console_ok by blast
  with Broken show ?thesis by (intro NoConsole [of OSError]) (simp_all add: build_try_def)
next
  case Printed
  show ?thesis
  proof (cases "proc e clean_cmd m (fs w)")
    case CannotStart
    then show ?thesis
      using Printed(2) run_forever_CannotStart [of e clean_cmd m w]
      by (intro CleanCannotStart) (simp_all add: build_try_def m_def)
  next
    case NeverTerminates
    then show ?thesis
      using Printed(2) run_forever_NeverTerminates [of e clean_cmd m w]
      by (intro CleanHangs) (simp_all add: build_try_def m_def)
  next
    case (Terminates d1 c1 f1)
    define w1 where "w1 = \<lparr>fs = f1, trace = trace w @ [Run clean_cmd m None (Terminates d1 c1 f1)]\<rparr>"
    have s1: "subprocess_run e clean_cmd m None w = (Return c1, w1)"
      using Terminates run_forever_Terminates [of e clean_cmd m w] by (simp add: w1_def)
    have bt: "build_try e w =
       and_then (subprocess_run e build_cmd m None w1) (\<lambda>r w2.
         if returncode r = 0
         then and_then (py_print e build_ok_line w2) (\<lambda>u w3. (Return True, w3))
         else and_then (py_print e (build_failed_line (stderr r)) w2)
                (\<lambda>u w3. (Return False, w3)))"
      using Printed(2) s1 by (simp add: build_try_def m_def)
    show ?thesis
    proof (cases "proc e build_cmd m f1")
      case CannotStart
      then have "proc e build_cmd m (fs w1) = CannotStart" by (simp add: w1_def)
      from run_forever_CannotStart [OF this] CannotStart Terminates show ?thesis
        by (intro BuildCannotStart [of d1 c1 f1]) (simp_all add: bt w1_def)
    next
      case NeverTerminates
      then have "proc e build_cmd m (fs w1) = NeverTerminates" by (simp add: w1_def)
      from run_forever_NeverTerminates [OF this] NeverTerminates Terminates show ?thesis
        by (intro BuildHangs [of d1 c1 f1]) (simp_all add: bt w1_def)
    next
      case b: (Terminates d2 c2 f2)
      define w2 where "w2 = \<lparr>fs = f2, trace = trace w @ [Run clean_cmd m None (Terminates d1 c1 f1),
            Run build_cmd m None (Terminates d2 c2 f2)]\<rparr>"
      have "proc e build_cmd m (fs w1) = Terminates d2 c2 f2" using b by (simp add: w1_def)
      from run_forever_Terminates [OF this]
      have s2: "subprocess_run e build_cmd m None w1 = (Return c2, w2)"
        by (simp add: w1_def w2_def)
      define line where "line = (if returncode c2 = 0 then build_ok_line
                                 else build_failed_line (stderr c2))"
      have bt2: "build_try e w =
          and_then (py_print e line w2) (\<lambda>u w3. (Return (returncode c2 = 0), w3))"
        using s2 by (simp add: bt line_def)
      show ?thesis
      proof (cases e line w2 rule: py_print_cases)
        case Printed
        with bt2 have "build_try e w = (Return (returncode c2 = 0), w2)" by simp
        with Terminates b show ?thesis
          by (intro BuildDone [of d1 c1 f1 d2 c2 f2 "Return (returncode c2 = 0)"])
             (simp_all add: w2_def)
      next
        case Unencodable
        then have nc: "\<not> console_ok e" using not_console_ok by blast
        from Unencodable bt2 have "build_try e w = (Raise UnicodeEncodeError, w2)" by simp
        with Terminates b nc show ?thesis
          by (intro BuildDone [of d1 c1 f1 d2 c2 f2 "Raise UnicodeEncodeError"])
             (simp_all add: w2_def)
      next
        case Broken
        then have nc: "\<not> console_ok e" using not_console_ok by blast
        from Broken bt2 have "build_try e w = (Raise OSError, w2)" by simp
        with Terminates b nc show ?thesis
          by (intro BuildDone [of d1 c1 f1 d2 c2 f2 "Raise OSError"])
             (simp_all add: w2_def)
      qed
    qed
  qed
qed


text \<open>What is left of an exception of the \<open>try\<close>.\<close>

lemma build_except_result:
  assumes "build_try e w = (Raise x, w1)"
  obtains r where "build_moonsec e w = (r, w1)"
    "r = Return False \<or> r = Raise UnicodeEncodeError \<or> r = Raise OSError"
    "console_ok e \<Longrightarrow> r = Return False"
proof -
  have b: "build_moonsec e w = build_except e x w1"
    using assms by (simp add: build_moonsec_unfold)
  from build_except_cases [of e x w1] build_except_ok [of e x w1] b
  show ?thesis by (auto intro: that)
qed

lemma build_moonsec_cases:
  fixes e w
  defines "m \<equiv> Some (str_path e MOONSEC_PATH)"
  obtains
    (NoConsole) r where "\<not> console_ok e" "build_moonsec e w = (r, w)"
      "r = Return False \<or> r = Raise UnicodeEncodeError \<or> r = Raise OSError"
  | (CleanCannotStart) r where "proc e clean_cmd m (fs w) = CannotStart"
      "build_moonsec e w =
         (r, \<lparr>fs = fs w, trace = trace w @ [Run clean_cmd m None CannotStart]\<rparr>)"
      "r = Return False \<or> r = Raise UnicodeEncodeError \<or> r = Raise OSError"
      "console_ok e \<Longrightarrow> r = Return False"
  | (CleanHangs) "proc e clean_cmd m (fs w) = NeverTerminates"
      "build_moonsec e w =
         (Hang, \<lparr>fs = fs w, trace = trace w @ [Run clean_cmd m None NeverTerminates]\<rparr>)"
  | (BuildCannotStart) d1 c1 f1 r where "proc e clean_cmd m (fs w) = Terminates d1 c1 f1"
      "proc e build_cmd m f1 = CannotStart"
      "build_moonsec e w =
         (r, \<lparr>fs = f1, trace = trace w @ [Run clean_cmd m None (Terminates d1 c1 f1),
            Run build_cmd m None CannotStart]\<rparr>)"
      "r = Return False \<or> r = Raise UnicodeEncodeError \<or> r = Raise OSError"
      "console_ok e \<Longrightarrow> r = Return False"
  | (BuildHangs) d1 c1 f1 where "proc e clean_cmd m (fs w) = Terminates d1 c1 f1"
      "proc e build_cmd m f1 = NeverTerminates"
      "build_moonsec e w =
         (Hang, \<lparr>fs = f1, trace = trace w @ [Run clean_cmd m None (Terminates d1 c1 f1),
            Run build_cmd m None NeverTerminates]\<rparr>)"
  | (BuildDone) d1 c1 f1 d2 c2 f2 r where "proc e clean_cmd m (fs w) = Terminates d1 c1 f1"
      "proc e build_cmd m f1 = Terminates d2 c2 f2"
      "build_moonsec e w =
         (r, \<lparr>fs = f2, trace = trace w @ [Run clean_cmd m None (Terminates d1 c1 f1),
            Run build_cmd m None (Terminates d2 c2 f2)]\<rparr>)"
      "r = Return (returncode c2 = 0) \<or> r = Return False \<or> r = Raise UnicodeEncodeError
         \<or> r = Raise OSError"
      "console_ok e \<Longrightarrow> r = Return (returncode c2 = 0)"
proof (cases e w rule: build_try_cases)
  case (NoConsole x)
  from build_except_result [OF NoConsole(3)] NoConsole(2) show ?thesis
    using that(1) by metis
next
  case CleanCannotStart
  from build_except_result [OF CleanCannotStart(2)] CleanCannotStart(1) show ?thesis
    using that(2) unfolding m_def by metis
next
  case CleanHangs
  then show ?thesis using that(3) unfolding m_def by (simp add: build_moonsec_unfold)
next
  case (BuildCannotStart d1 c1 f1)
  from build_except_result [OF BuildCannotStart(3)] BuildCannotStart(1,2) show ?thesis
    using that(4) unfolding m_def by metis
next
  case (BuildHangs d1 c1 f1)
  then show ?thesis using that(5) unfolding m_def by (simp add: build_moonsec_unfold)
next
  case (BuildDone d1 c1 f1 d2 c2 f2 r)
  let ?w2 = "\<lparr>fs = f2, trace = trace w @ [Run clean_cmd (Some (str_path e MOONSEC_PATH)) None (Terminates d1 c1 f1),
            Run build_cmd (Some (str_path e MOONSEC_PATH)) None (Terminates d2 c2 f2)]\<rparr>"
  from BuildDone(4) consider (ret) "r = Return (returncode c2 = 0)"
    | (exn) x where "r = Raise x" "\<not> console_ok e" using BuildDone(5) by auto
  then show ?thesis
  proof cases
    case ret
    with BuildDone(3) have "build_moonsec e w = (Return (returncode c2 = 0), ?w2)"
      by (simp add: build_moonsec_unfold)
    with BuildDone(1,2) show ?thesis
      using that(6) [of d1 c1 f1 d2 c2 f2 "Return (returncode c2 = 0)"] unfolding m_def by simp
  next
    case exn
    with BuildDone(3) have "build_try e w = (Raise x, ?w2)" by simp
    from build_except_result [OF this] obtain r' where
      r': "build_moonsec e w = (r', ?w2)"
      "r' = Return False \<or> r' = Raise UnicodeEncodeError \<or> r' = Raise OSError" by metis
    with BuildDone(1,2) exn(2) show ?thesis
      using that(6) [of d1 c1 f1 d2 c2 f2 r'] unfolding m_def by auto
  qed
qed

lemma build_only_Nil: "build_only []"
  by (simp add: build_only_def)

lemma build_fails_Nil: "\<not> build_fails []"
  by (simp add: build_fails_def)

lemma build_fails_clean:
  "build_fails [Run clean_cmd m None b] \<longleftrightarrow> b = CannotStart"
  using clean_not_build by (auto simp: build_fails_def)

lemma build_fails_both:
  "build_fails [Run clean_cmd m None (Terminates d1 c1 f1), Run build_cmd m None b] \<longleftrightarrow>
     b = CannotStart \<or> (\<exists>d c f. b = Terminates d c f \<and> returncode c \<noteq> 0)"
  using clean_not_build by (auto simp: build_fails_def)

lemma build_only_clean: "build_only [Run clean_cmd m None b]"
  using clean_not_build by (simp add: build_only_def)

lemma build_only_both: "build_only [Run clean_cmd m None b1, Run build_cmd m None b2]"
  using clean_not_build by (simp add: build_only_def)

text \<open>What one call of \<open>build_moonsec\<close> runs, and what a failed build returns.\<close>

lemma build_moonsec_summary:
  fixes e w
  defines "m \<equiv> Some (str_path e MOONSEC_PATH)"
  shows "\<exists>pre. trace (snd (build_moonsec e w)) = trace w @ pre \<and> build_only pre \<and>
      (pre = [] \<or> (\<exists>b1. pre = [Run clean_cmd m None b1]) \<or>
       (\<exists>b1 b2. pre = [Run clean_cmd m None b1, Run build_cmd m None b2])) \<and>
      (build_fails pre \<longrightarrow>
         (fst (build_moonsec e w) = Return False \<or>
          fst (build_moonsec e w) = Raise UnicodeEncodeError \<or>
          fst (build_moonsec e w) = Raise OSError) \<and>
         (console_ok e \<longrightarrow> fst (build_moonsec e w) = Return False)) \<and>
      (fst (build_moonsec e w) = Return True \<longrightarrow> \<not> build_fails pre) \<and>
      (\<forall>x. fst (build_moonsec e w) = Raise x \<longrightarrow> x = UnicodeEncodeError \<or> x = OSError)"
proof (cases e w rule: build_moonsec_cases)
  case (NoConsole r)
  then show ?thesis
    by (intro exI [of _ "[]"]) (auto simp: build_only_Nil build_fails_Nil)
next
  case (CleanCannotStart r)
  then show ?thesis unfolding m_def
    by (intro exI [of _ "[Run clean_cmd (Some (str_path e MOONSEC_PATH)) None CannotStart]"])
       (auto simp: build_only_clean build_fails_clean)
next
  case CleanHangs
  then show ?thesis unfolding m_def
    by (intro exI [of _ "[Run clean_cmd (Some (str_path e MOONSEC_PATH)) None NeverTerminates]"])
       (auto simp: build_only_clean build_fails_clean)
next
  case (BuildCannotStart d1 c1 f1 r)
  then show ?thesis unfolding m_def
    by (intro exI [of _ "[Run clean_cmd (Some (str_path e MOONSEC_PATH)) None (Terminates d1 c1 f1),
            Run build_cmd (Some (str_path e MOONSEC_PATH)) None CannotStart]"])
       (auto simp: build_only_both build_fails_both)
next
  case (BuildHangs d1 c1 f1)
  then show ?thesis unfolding m_def
    by (intro exI [of _ "[Run clean_cmd (Some (str_path e MOONSEC_PATH)) None (Terminates d1 c1 f1),
            Run build_cmd (Some (str_path e MOONSEC_PATH)) None NeverTerminates]"])
       (auto simp: build_only_both build_fails_both)
next
  case (BuildDone d1 c1 f1 d2 c2 f2 r)
  then show ?thesis unfolding m_def
    by (intro exI [of _ "[Run clean_cmd (Some (str_path e MOONSEC_PATH)) None (Terminates d1 c1 f1),
            Run build_cmd (Some (str_path e MOONSEC_PATH)) None (Terminates d2 c2 f2)]"])
       (auto simp: build_only_both build_fails_both)
qed

subsection \<open>The locator\<close>

lemma select_cmd_not_build: "select_cmd e w c i outp = Inr cmd \<Longrightarrow> cmd \<noteq> build_cmd \<and> cmd \<noteq> clean_cmd"
  by (auto simp: select_cmd_def build_cmd_def clean_cmd_def Let_def split: option.splits if_splits)

text \<open>
  The locator: the commands of at most one build; a failed build is answered as such or
  raises what the console raised; a command is returned only after no failed build.
\<close>

lemma locate_summary:
  "\<exists>pre. trace (snd (locate e c i outp w)) = trace w @ pre \<and> build_only pre \<and>
      (build_fails pre \<longrightarrow>
         (fst (locate e c i outp w) = Return (Inl build_failed) \<or>
          fst (locate e c i outp w) = Raise UnicodeEncodeError \<or>
          fst (locate e c i outp w) = Raise OSError) \<and>
         (console_ok e \<longrightarrow> fst (locate e c i outp w) = Return (Inl build_failed))) \<and>
      (\<forall>cmd. fst (locate e c i outp w) = Return (Inr cmd) \<longrightarrow>
         \<not> build_fails pre \<and> cmd \<noteq> build_cmd \<and> cmd \<noteq> clean_cmd) \<and>
      (\<forall>x. fst (locate e c i outp w) = Raise x \<longrightarrow> x = UnicodeEncodeError \<or> x = OSError)"
proof (cases "path_exists e w BUILD_PATH")
  case True
  then have "locate e c i outp w = (Return (select_cmd e w c i outp), w)"
    by (simp add: locate_def)
  then show ?thesis
    using select_cmd_not_build [of e w c i outp]
    by (intro exI [of _ "[]"]) (auto simp: build_only_Nil build_fails_Nil)
next
  case False
  from build_moonsec_summary [of e w] obtain pre where
    pre: "trace (snd (build_moonsec e w)) = trace w @ pre" "build_only pre"
      "build_fails pre \<longrightarrow>
         (fst (build_moonsec e w) = Return False \<or>
          fst (build_moonsec e w) = Raise UnicodeEncodeError \<or>
          fst (build_moonsec e w) = Raise OSError) \<and>
         (console_ok e \<longrightarrow> fst (build_moonsec e w) = Return False)"
      "fst (build_moonsec e w) = Return True \<longrightarrow> \<not> build_fails pre"
      "\<forall>x. fst (build_moonsec e w) = Raise x \<longrightarrow> x = UnicodeEncodeError \<or> x = OSError"
    by blast
  show ?thesis
  proof (cases "build_moonsec e w" rule: result_world_cases)
    case (Return built w1)
    show ?thesis
    proof (cases built)
      case True
      with Return False have "locate e c i outp w = (Return (select_cmd e w1 c i outp), w1)"
        by (simp add: locate_def)
      with pre Return True show ?thesis
        using select_cmd_not_build [of e w1 c i outp]
        by (intro exI [of _ pre]) auto
    next
      case nb: False
      with Return False have "locate e c i outp w = (Return (Inl build_failed), w1)"
        by (simp add: locate_def)
      with pre Return nb show ?thesis by (intro exI [of _ pre]) auto
    qed
  next
    case (Raise x w1)
    with False have "locate e c i outp w = (Raise x, w1)" by (simp add: locate_def)
    with pre Raise show ?thesis by (intro exI [of _ pre]) auto
  next
    case (Hang w1)
    with False have "locate e c i outp w = (Hang, w1)" by (simp add: locate_def)
    with pre Hang show ?thesis by (intro exI [of _ pre]) auto
  qed
qed

subsection \<open>Running the tool\<close>

lemma read_output_world: "snd (read_output data dis outp w) = w"
  by (cases "py_get data (py ''pretty'') (JBool True)";
      cases "py_get data (py ''filename'') (JStr (py ''unknown.lua''))")
     (auto simp: read_output_def Let_def split: option.splits entry.splits)

text \<open>The three prints after the run: the first line the console refuses raises.\<close>

lemma log_prints:
  "and_then (py_print e (py ''Return code: '' @ str_int (returncode r)) w) (\<lambda>u w2.
   and_then (if stdout r \<noteq> [] then py_print e (py ''STDOUT: '' @ take 200 (stdout r)) w2
             else (Return (), w2)) (\<lambda>u w3.
   and_then (if stderr r \<noteq> [] then py_print e (py ''STDERR: '' @ take 200 (stderr r)) w3
             else (Return (), w3)) (\<lambda>u w4. k w4))) =
   (case print_error e (log_lines r) of None \<Rightarrow> k w | Some x \<Rightarrow> (Raise x, w))"
  by (cases "console e (py ''Return code: '' @ str_int (returncode r))";
      cases "console e (py ''STDOUT: '' @ take 200 (stdout r))";
      cases "console e (py ''STDERR: '' @ take 200 (stderr r))")
     (simp_all add: py_print_def log_lines_def)

lemma run_tool_unfold:
  "run_tool e data dis outp cmd w =
     and_then (py_print e (py ''Running command: '' @ join (py '' '') cmd) w)
       (\<lambda>u w0. after_print e data dis outp cmd w0)"
  by (simp add: run_tool_def after_print_def log_prints)

lemma after_print_trace:
  "trace (snd (after_print e data dis outp cmd w)) =
     trace w @ [Run cmd None (Some 30) (proc e cmd None (fs w))]"
proof -
  obtain r w1 where s: "subprocess_run e cmd None (Some 30) w = (r, w1)" by fastforce
  have t: "trace w1 = trace w @ [Run cmd None (Some 30) (proc e cmd None (fs w))]"
    using subprocess_run_trace [of e cmd None "Some 30" w] s by simp
  show ?thesis
  proof (cases r)
    case (Return c)
    with s t show ?thesis
      by (cases "print_error e (log_lines c)") (simp_all add: after_print_def read_output_world)
  qed (use s t in \<open>simp_all add: after_print_def\<close>)
qed

lemma after_print_timeout:
  "exceeds (proc e cmd None (fs w)) 30 \<Longrightarrow>
   fst (after_print e data dis outp cmd w) = Raise TimeoutExpired"
proof -
  assume "exceeds (proc e cmd None (fs w)) 30"
  then have "fst (subprocess_run e cmd None (Some 30) w) = Raise TimeoutExpired"
    by (simp add: subprocess_run_result observe_exceeds)
  then show ?thesis
    by (cases "subprocess_run e cmd None (Some 30) w") (simp add: after_print_def)
qed

lemma after_print_nonzero:
  assumes "proc e cmd None (fs w) = Terminates d c f" "d \<le> 30" "returncode c \<noteq> 0"
  shows "fst (after_print e data dis outp cmd w) =
           (case print_error e (log_lines c) of
              None \<Rightarrow> Return (tool_failed c) | Some x \<Rightarrow> Raise x)"
proof -
  have "fst (subprocess_run e cmd None (Some 30) w) = Return c"
    using assms by (simp add: subprocess_run_result observe_in_time)
  then show ?thesis using assms(3)
    by (cases "subprocess_run e cmd None (Some 30) w"; cases "print_error e (log_lines c)")
       (simp_all add: after_print_def)
qed

lemma after_print_event_ok:
  "tool_event_ok e Raise (proc e cmd None (fs w)) (fst (after_print e data dis outp cmd w))"
  unfolding tool_event_ok_def using after_print_timeout after_print_nonzero by blast

lemma run_tool_cases:
  obtains (NoConsole) x where "x = UnicodeEncodeError \<or> x = OSError"
      "run_tool e data dis outp cmd w = (Raise x, w)"
  | (Run) "run_tool e data dis outp cmd w = after_print e data dis outp cmd w"
  by (cases e "py ''Running command: '' @ join (py '' '') cmd" w rule: py_print_cases)
     (simp_all add: run_tool_unfold)

subsection \<open>The body of the inner try\<close>

lemma trace_shape_no_tool:
  assumes "build_only pre" "build_event_ok e h pre r"
  shows "trace_shape e h pre r"
  using assms unfolding trace_shape_def by blast

lemma trace_shape_Nil:
  "trace_shape e h [] r"
  by (rule trace_shape_no_tool) (simp_all add: build_only_Nil build_event_ok_def build_fails_Nil)

lemma try_body_shape:
  "\<exists>evs. trace (snd (try_body e data i outp w)) = trace w @ evs \<and>
         trace_shape e Raise evs (fst (try_body e data i outp w))"
proof (cases "py_get data (py ''disassembly'') (JBool False)")
  case (Inl x)
  then have "snd (try_body e data i outp w) = w" by (simp add: try_body_def)
  then show ?thesis using trace_shape_Nil by auto
next
  case (Inr d)
  define c where "c = (if truthy d then py ''-dis'' else py ''-dev'')"
  from locate_summary [of e c i outp w] obtain pre where
    pre: "trace (snd (locate e c i outp w)) = trace w @ pre" "build_only pre"
      "build_fails pre \<longrightarrow>
         (fst (locate e c i outp w) = Return (Inl build_failed) \<or>
          fst (locate e c i outp w) = Raise UnicodeEncodeError \<or>
          fst (locate e c i outp w) = Raise OSError) \<and>
         (console_ok e \<longrightarrow> fst (locate e c i outp w) = Return (Inl build_failed))"
      "\<forall>cmd. fst (locate e c i outp w) = Return (Inr cmd) \<longrightarrow>
         \<not> build_fails pre \<and> cmd \<noteq> build_cmd \<and> cmd \<noteq> clean_cmd"
    by blast
  show ?thesis
  proof (cases "locate e c i outp w" rule: result_world_cases)
    case (Return found w1)
    show ?thesis
    proof (cases found)
      case (Inl resp)
      with Return Inr have tb: "try_body e data i outp w = (Return resp, w1)"
        by (simp add: try_body_def c_def Let_def)
      have "build_event_ok e Raise pre (Return resp)"
        using pre(3) Return Inl by (auto simp: build_event_ok_def)
      with pre(1,2) Return tb show ?thesis
        by (intro exI [of _ pre]) (simp add: trace_shape_no_tool)
    next
      case found: (Inr cmd)
      with Return pre(4) have nb: "\<not> build_fails pre" "cmd \<noteq> build_cmd" "cmd \<noteq> clean_cmd"
        by simp_all
      have tb: "try_body e data i outp w = run_tool e data (truthy d) outp cmd w1"
        using Inr Return found by (simp add: try_body_def c_def Let_def)
      show ?thesis
      proof (cases e data "truthy d" outp cmd w1 rule: run_tool_cases)
        case (NoConsole x)
        with tb have "try_body e data i outp w = (Raise x, w1)" by simp
        moreover have "build_event_ok e Raise pre (Raise x)"
          using nb(1) by (simp add: build_event_ok_def)
        ultimately show ?thesis using pre(1,2) Return
          by (intro exI [of _ pre]) (simp add: trace_shape_no_tool)
      next
        case Run
        with tb have ap: "try_body e data i outp w = after_print e data (truthy d) outp cmd w1"
          by simp
        have "trace (snd (try_body e data i outp w)) =
                trace w @ pre @ [Run cmd None (Some 30) (proc e cmd None (fs w1))]"
          using ap after_print_trace [of e data "truthy d" outp cmd w1] pre(1) Return by simp
        moreover have "tool_event_ok e Raise (proc e cmd None (fs w1)) (fst (try_body e data i outp w))"
          using ap after_print_event_ok by simp
        ultimately show ?thesis using pre(2) nb unfolding trace_shape_def by blast
      qed
    qed
  next
    case (Raise x w1)
    with Inr have tb: "try_body e data i outp w = (Raise x, w1)"
      by (simp add: try_body_def c_def Let_def)
    have "build_event_ok e Raise pre (Raise x)"
      using pre(3) Raise by (auto simp: build_event_ok_def)
    with pre(1,2) Raise tb show ?thesis
      by (intro exI [of _ pre]) (simp add: trace_shape_no_tool)
  next
    case (Hang w1)
    with Inr have tb: "try_body e data i outp w = (Hang, w1)"
      by (simp add: try_body_def c_def Let_def)
    have "build_event_ok e Raise pre Hang"
      using pre(3) Hang by (auto simp: build_event_ok_def)
    with pre(1,2) Hang tb show ?thesis
      by (intro exI [of _ pre]) (simp add: trace_shape_no_tool)
  qed
qed

subsection \<open>Cleaning up\<close>

lemma unlink_trace: "trace (snd (unlink e p w)) = trace w"
  by (simp add: unlink_def split: option.splits entry.splits)

lemma cleanup_trace: "trace (cleanup e i outp w) = trace w"
proof -
  define m where "m = (if os_path_exists w i then unlink e i w else (Return (), w))"
  have tm: "trace (snd m) = trace w" by (simp add: m_def unlink_trace)
  show ?thesis
  proof (cases m rule: result_world_cases)
    case (Return u w1)
    then have "cleanup e i outp w =
        snd (if os_path_exists w1 outp then unlink e outp w1 else (Return (), w1))"
      by (simp add: cleanup_def m_def [symmetric])
    with tm Return show ?thesis by (simp add: unlink_trace)
  next
    case (Raise x w1)
    then have "cleanup e i outp w = w1" by (simp add: cleanup_def m_def [symmetric])
    with tm Raise show ?thesis by simp
  next
    case (Hang w1)
    then have "cleanup e i outp w = w1" by (simp add: cleanup_def m_def [symmetric])
    with tm Hang show ?thesis by simp
  qed
qed

subsection \<open>The inner try with its handlers\<close>

lemma try_block_result:
  "fst (try_block e data i outp w) =
     (case fst (try_body e data i outp w) of
        Return resp \<Rightarrow> Return resp
      | Raise x \<Rightarrow> handled e x
      | Hang \<Rightarrow> Hang)"
  by (cases "try_body e data i outp w" rule: result_world_cases)
     (simp_all add: try_block_def handled_def processing_error_def)

lemma try_block_trace:
  "trace (snd (try_block e data i outp w)) = trace (snd (try_body e data i outp w))"
  by (cases "try_body e data i outp w" rule: result_world_cases)
     (simp_all add: try_block_def cleanup_trace)

lemma tool_event_ok_caught:
  assumes "tool_event_ok e Raise b r"
  shows "tool_event_ok e (handled e) b (caught e r)"
  using assms unfolding tool_event_ok_def
  by (auto simp: caught_def split: option.splits)

lemma build_event_ok_caught:
  assumes "build_event_ok e Raise pre r"
  shows "build_event_ok e (handled e) pre (caught e r)"
  using assms unfolding build_event_ok_def by (auto simp: caught_def)

lemma trace_shape_caught:
  assumes "trace_shape e Raise evs r"
  shows "trace_shape e (handled e) evs (caught e r)"
  using assms tool_event_ok_caught build_event_ok_caught unfolding trace_shape_def by blast

lemma try_block_shape:
  "\<exists>evs. trace (snd (try_block e data i outp w)) = trace w @ evs \<and>
         trace_shape e (handled e) evs (fst (try_block e data i outp w))"
proof -
  obtain evs where evs: "trace (snd (try_body e data i outp w)) = trace w @ evs"
    and sh: "trace_shape e Raise evs (fst (try_body e data i outp w))"
    using try_body_shape by blast
  have "fst (try_block e data i outp w) = caught e (fst (try_body e data i outp w))"
    by (simp add: try_block_result caught_def)
  with trace_shape_caught [OF sh] evs show ?thesis by (auto simp: try_block_trace)
qed

text \<open>Answers stay what they are when only exceptions are turned into answers.\<close>

lemma handled_Return: "\<exists>resp. handled e x = Return resp"
  by (simp add: handled_def)

lemma trace_shape_same:
  assumes "trace_shape e (handled e) evs r" and "\<And>resp. r = Return resp \<Longrightarrow> r' = r"
  shows "trace_shape e (handled e) evs r'"
proof -
  from assms(1) obtain pre where pre: "build_only pre"
    and d: "(evs = pre \<and> build_event_ok e (handled e) pre r) \<or>
            (\<exists>cmd b. evs = pre @ [Run cmd None (Some 30) b] \<and> cmd \<noteq> build_cmd \<and>
               cmd \<noteq> clean_cmd \<and> \<not> build_fails pre \<and> tool_event_ok e (handled e) b r)"
    unfolding trace_shape_def by blast
  from d show ?thesis
  proof
    assume a: "evs = pre \<and> build_event_ok e (handled e) pre r"
    then have "build_event_ok e (handled e) pre r'"
      using assms(2) handled_Return [of e] unfolding build_event_ok_def
      by (metis build_failed_def)
    with a pre show ?thesis unfolding trace_shape_def by blast
  next
    assume "\<exists>cmd b. evs = pre @ [Run cmd None (Some 30) b] \<and> cmd \<noteq> build_cmd \<and>
               cmd \<noteq> clean_cmd \<and> \<not> build_fails pre \<and> tool_event_ok e (handled e) b r"
    then obtain cmd b where e: "evs = pre @ [Run cmd None (Some 30) b]" "cmd \<noteq> build_cmd"
      "cmd \<noteq> clean_cmd" "\<not> build_fails pre"
      and ok: "tool_event_ok e (handled e) b r" by blast
    have "tool_event_ok e (handled e) b r'"
      unfolding tool_event_ok_def
    proof (intro conjI impI allI)
      assume "exceeds b 30"
      with ok have "r = handled e TimeoutExpired" by (simp add: tool_event_ok_def)
      with assms(2) handled_Return [of e TimeoutExpired] show "r' = handled e TimeoutExpired"
        by auto
    next
      fix d c f assume a: "b = Terminates d c f \<and> d \<le> 30 \<and> returncode c \<noteq> 0"
      with ok have r: "r = (case print_error e (log_lines c) of
                         None \<Rightarrow> Return (tool_failed c) | Some x \<Rightarrow> handled e x)"
        unfolding tool_event_ok_def by blast
      then have "\<exists>resp. r = Return resp"
        using handled_Return [of e] by (cases "print_error e (log_lines c)") auto
      with assms(2) r show "r' = (case print_error e (log_lines c) of
                         None \<Rightarrow> Return (tool_failed c) | Some x \<Rightarrow> handled e x)"
        by auto
    qed
    with pre e show ?thesis unfolding trace_shape_def by blast
  qed
qed

subsection \<open>The handler\<close>

lemma write_temp_trace: "trace (snd (write_temp e data w)) = trace w"
  by (cases "new_temp e (fs w)"; cases "py_getitem data (py ''content'')")
     (auto simp: write_temp_def Let_def of_sum_def and_then_def split: sum.splits)

lemma deobfuscate_try_shape:
  "\<exists>evs. trace (snd (deobfuscate_try e body w)) = trace w @ evs \<and>
         trace_shape e (handled e) evs (fst (deobfuscate_try e body w))"
proof -
  have early: "snd (deobfuscate_try e body w) = w \<Longrightarrow> ?thesis"
    using trace_shape_Nil by auto
  show ?thesis
  proof (cases body)
    case (Inl x)
    then show ?thesis by (intro early) (simp add: deobfuscate_try_def)
  next
    case (Inr data)
    show ?thesis
    proof (cases "truthy data")
      case False
      with Inr show ?thesis by (intro early) (simp add: deobfuscate_try_def)
    next
      case True
      show ?thesis
      proof (cases "py_in (py ''content'') data")
        case (Inl x)
        with Inr True show ?thesis by (intro early) (simp add: deobfuscate_try_def)
      next
        case has: (Inr has_content)
        show ?thesis
        proof (cases "has_content \<and> path_exists e w MOONSEC_PATH")
          case False
          with Inr True has show ?thesis
            by (intro early) (auto simp: deobfuscate_try_def)
        next
          case ok: True
          show ?thesis
          proof (cases "write_temp e data w" rule: result_world_cases)
            case (Return name w2)
            then have t2: "trace w2 = trace w" using write_temp_trace [of e data w] by simp
            have "deobfuscate_try e body w = try_block e data name (name @ py ''.output'') w2"
              using Inr True has ok Return by (simp add: deobfuscate_try_def Let_def)
            then show ?thesis
              using try_block_shape [of e data name "name @ py ''.output''" w2] t2 by simp
          next
            case (Raise x w2)
            then have t2: "trace w2 = trace w" using write_temp_trace [of e data w] by simp
            have "deobfuscate_try e body w = (Raise x, w2)"
              using Inr True has ok Raise by (simp add: deobfuscate_try_def Let_def)
            then show ?thesis using t2 trace_shape_Nil by auto
          next
            case (Hang w2)
            then have t2: "trace w2 = trace w" using write_temp_trace [of e data w] by simp
            have "deobfuscate_try e body w = (Hang, w2)"
              using Inr True has ok Hang by (simp add: deobfuscate_try_def Let_def)
            then show ?thesis using t2 trace_shape_Nil by auto
          qed
        qed
      qed
    qed
  qed
qed

lemma deobfuscate_result:
  "fst (deobfuscate e body w) =
     (case fst (deobfuscate_try e body w) of
        Return resp \<Rightarrow> Return resp
      | Raise x \<Rightarrow> Return (Response 500 (Error (py ''Server error: '' @ exn_str e x)))
      | Hang \<Rightarrow> Hang)"
  by (cases "deobfuscate_try e body w" rule: result_world_cases) (simp_all add: deobfuscate_def)

lemma deobfuscate_world: "snd (deobfuscate e body w) = snd (deobfuscate_try e body w)"
  by (cases "deobfuscate_try e body w" rule: result_world_cases) (simp_all add: deobfuscate_def)

lemma commands_run_shape:
  "trace_shape e (handled e) (commands_run e body w) (fst (deobfuscate e body w))"
proof -
  obtain evs where evs: "trace (snd (deobfuscate_try e body w)) = trace w @ evs"
    and sh: "trace_shape e (handled e) evs (fst (deobfuscate_try e body w))"
    using deobfuscate_try_shape by blast
  have "commands_run e body w = evs"
    by (simp add: commands_run_def deobfuscate_world evs)
  moreover have "trace_shape e (handled e) evs (fst (deobfuscate e body w))"
    using sh by (rule trace_shape_same) (simp add: deobfuscate_result)
  ultimately show ?thesis by simp
qed

text \<open>The commands of a request, taken apart.\<close>

lemma commands_run_cases:
  obtains (NoTool) pre where "build_only pre" "commands_run e body w = pre"
      "build_event_ok e (handled e) pre (fst (deobfuscate e body w))"
  | (Tool) pre cmd b where "build_only pre" "\<not> build_fails pre"
      "commands_run e body w = pre @ [Run cmd None (Some 30) b]"
      "cmd \<noteq> build_cmd" "cmd \<noteq> clean_cmd"
      "tool_event_ok e (handled e) b (fst (deobfuscate e body w))"
  using commands_run_shape [of e body w] unfolding trace_shape_def by blast


text \<open>A command run with a timeout is the tool, run with 30 seconds.\<close>

lemma timed_command:
  assumes "Run cmd cwd (Some t) b \<in> set (commands_run e body w)"
  shows "t = 30 \<and> tool_event_ok e (handled e) b (fst (deobfuscate e body w))"
proof (cases e body w rule: commands_run_cases)
  case (NoTool pre)
  then have "Run cmd cwd (Some t) b \<notin> set pre" unfolding build_only_def by force
  with assms NoTool show ?thesis by simp
next
  case (Tool pre cmd' b')
  then have "Run cmd cwd (Some t) b \<notin> set pre" unfolding build_only_def by force
  with assms Tool have "Run cmd cwd (Some t) b = Run cmd' None (Some 30) b'" by simp
  with Tool show ?thesis by simp
qed

lemma commands_run_timeouts:
  "\<forall>ev\<in>set (commands_run e body w).
     ev_timeout ev = Some 30 \<or> ev_cmd ev = clean_cmd \<or> ev_cmd ev = build_cmd"
proof (cases e body w rule: commands_run_cases)
  case (NoTool pre)
  then show ?thesis by (auto simp: build_only_def)
next
  case (Tool pre cmd b)
  then show ?thesis by (auto simp: build_only_def)
qed

text \<open>
  C3: the tool is run with a fixed timeout of 30 seconds: every command a request runs
  has that timeout, the two commands of the build apart; and when a command run with a
  timeout exceeds it (it needs longer, or never ends), the timeout was 30 and the request
  is answered 500 with the error \<open>Process timed out after 30 seconds\<close>.
\<close>

theorem tool_timeout_reported:
  "(\<forall>ev\<in>set (commands_run e body w).
      ev_timeout ev = Some 30 \<or> ev_cmd ev = clean_cmd \<or> ev_cmd ev = build_cmd) \<and>
   (Run cmd cwd (Some t) b \<in> set (commands_run e body w) \<longrightarrow> exceeds b t \<longrightarrow>
      t = 30 \<and>
      fst (deobfuscate e body w) =
        Return (Response 500 (Error (py ''Process timed out after 30 seconds''))))"
proof (intro conjI impI)
  show "\<forall>ev\<in>set (commands_run e body w).
      ev_timeout ev = Some 30 \<or> ev_cmd ev = clean_cmd \<or> ev_cmd ev = build_cmd"
    by (rule commands_run_timeouts)
next
  assume a: "Run cmd cwd (Some t) b \<in> set (commands_run e body w)" "exceeds b t"
  from timed_command [OF a(1)] a(2) show "t = 30" by simp
  from timed_command [OF a(1)] a(2)
  show "fst (deobfuscate e body w) =
        Return (Response 500 (Error (py ''Process timed out after 30 seconds'')))"
    by (auto simp: tool_event_ok_def handled_def timed_out_def)
qed


lemmas handler_defs =
  deobfuscate_def deobfuscate_try_def try_block_def try_body_def run_tool_def read_output_def
  locate_def select_cmd_def write_temp_def cleanup_def unlink_def build_moonsec_def
  build_try_def py_print_def
  subprocess_run_def observe_def fs_after_def and_then_def of_sum_def commands_run_def
  path_exists_def os_path_exists_def str_path_def possible_paths_def BUILD_PATH_def
  MOONSEC_PATH_def no_content_def moonsec_missing_def timed_out_def tool_failed_def
  no_output_def not_found_def build_failed_def clean_cmd_def build_cmd_def is_surrogate_def

lemmas string_defs =
  py_def format_output_def replace_def NL_def SEMI_def LBRACE_def RBRACE_def
  nonblank_lines_def strip_def rstrip_def lstrip_def is_space_def

lemmas demo_defs =
  demo_env_def demo_tmp_def installed_def half_built_def tool_writes_def tool_fails_def
  tool_slow_def demo_request_def demo_world_def demo_cmd_def demo_fs_def


lemma slow_run:
  "commands_run (demo_env tool_slow) (Inr demo_request) (demo_world installed) =
     [Run demo_cmd None (Some 30) (tool_slow demo_cmd None demo_fs)]"
  by (simp add: handler_defs demo_defs string_defs Let_def)

text \<open>
  C3, at an input: on a machine whose tool needs 45 seconds, the request runs the tool
  with 30 seconds and is answered 500 with the timeout message.
\<close>

theorem tool_timeout_reported_witness:
  "Run demo_cmd None (Some 30) (tool_slow demo_cmd None demo_fs)
     \<in> set (commands_run (demo_env tool_slow) (Inr demo_request) (demo_world installed)) \<and>
   exceeds (tool_slow demo_cmd None demo_fs) 30 \<and>
   fst (deobfuscate (demo_env tool_slow) (Inr demo_request) (demo_world installed)) =
     Return (Response 500 (Error (py ''Process timed out after 30 seconds'')))"
proof -
  have h1: "Run demo_cmd None (Some 30) (tool_slow demo_cmd None demo_fs)
     \<in> set (commands_run (demo_env tool_slow) (Inr demo_request) (demo_world installed))"
    by (simp add: slow_run)
  have h2: "exceeds (tool_slow demo_cmd None demo_fs) 30"
    by (simp add: exceeds_def tool_slow_def)
  from tool_timeout_reported
         [of "demo_env tool_slow" "Inr demo_request" "demo_world installed" demo_cmd None 30
             "tool_slow demo_cmd None demo_fs"] h1 h2
  show ?thesis by blast
qed




text \<open>A console that cannot encode an accented letter: the tool fails with one in its
  error stream, and the answer is a processing error.\<close>

lemma accent_run:
  "fst (deobfuscate
     ((demo_env (\<lambda>cmd cwd f. Terminates 1 \<lparr>returncode = 1, stdout = [], stderr = [233]\<rparr> f))
        \<lparr>console := (\<lambda>t. if list_ex (\<lambda>c. 127 < c) t then Unencodable else Printed)\<rparr>)
     (Inr demo_request) (demo_world installed)) =
   Return (Response 500 (Error (py ''Processing error: UnicodeEncodeError'')))"
  by (simp add: handler_defs demo_defs string_defs Let_def)

subsection \<open>Where a 200 comes from\<close>

lemma py_get_Inr: "py_get data k d = Inr v \<Longrightarrow> \<exists>kvs. data = JObj kvs \<and> v = requested kvs k d"
  by (cases data) (auto simp: requested_def)

lemma read_output_200:
  assumes "fst (read_output data dis outp w) = Return (Response 200 p)"
  shows "\<exists>kvs out. data = JObj kvs \<and> fs w outp = Some (File out) \<and>
           p = Success
                 (if truthy (requested kvs (py ''pretty'') (JBool True))
                  then format_output out dis else out)
                 (if dis then py ''disassembly'' else py ''bytecode'')
                 (requested kvs (py ''filename'') (JStr (py ''unknown.lua'')))"
proof (cases data)
  case (JObj kvs)
  with assms show ?thesis
    by (auto simp: read_output_def no_output_def requested_def Let_def
             split: option.splits entry.splits)
qed (use assms in \<open>auto simp: read_output_def no_output_def split: option.splits entry.splits\<close>)

lemma subprocess_run_Return:
  assumes "subprocess_run e cmd cwd (Some t) w = (Return c, w1)"
  shows "\<exists>d f. proc e cmd cwd (fs w) = Terminates d c f \<and> d \<le> t \<and> fs w1 = f"
  using assms
  by (cases "proc e cmd cwd (fs w)")
     (auto simp: subprocess_run_def observe_def fs_after_def Let_def split: if_splits)

lemma after_print_200:
  assumes "fst (after_print e data dis outp cmd w) = Return (Response 200 p)"
  shows "\<exists>d c f w1. proc e cmd None (fs w) = Terminates d c f \<and> d \<le> 30 \<and> returncode c = 0 \<and>
           fs w1 = f \<and> fst (read_output data dis outp w1) = Return (Response 200 p)"
proof (cases "subprocess_run e cmd None (Some 30) w" rule: result_world_cases)
  case (Return c w1)
  from subprocess_run_Return [OF Return] obtain d f where
    p: "proc e cmd None (fs w) = Terminates d c f" "d \<le> 30" "fs w1 = f" by blast
  from assms Return have "returncode c = 0 \<and> fst (read_output data dis outp w1) = Return (Response 200 p)"
    by (cases "print_error e (log_lines c)")
       (auto simp: after_print_def tool_failed_def Let_def split: if_splits)
  with p show ?thesis by blast
next
  case (Raise x w1)
  with assms show ?thesis by (simp add: after_print_def)
next
  case (Hang w1)
  with assms show ?thesis by (simp add: after_print_def)
qed

lemma run_tool_200:
  assumes "fst (run_tool e data dis outp cmd w) = Return (Response 200 p)"
  shows "run_tool e data dis outp cmd w = after_print e data dis outp cmd w"
  using assms by (cases e data dis outp cmd w rule: run_tool_cases) simp_all

lemma locate_Inl:
  "fst (locate e c i outp w) = Return (Inl resp) \<Longrightarrow> resp = build_failed \<or> resp = not_found"
  by (cases "build_moonsec e w" rule: result_world_cases)
     (auto simp: locate_def select_cmd_def Let_def split: if_splits option.splits)

lemma locate_prefix: "\<exists>pre. trace (snd (locate e c i outp w)) = trace w @ pre"
  using locate_summary [of e c i outp w] by blast

lemma select_cmd_last: "select_cmd e w c i outp = Inr cmd \<Longrightarrow> last cmd = outp"
  by (auto simp: select_cmd_def Let_def split: option.splits if_splits)

lemma locate_last: "fst (locate e c i outp w) = Return (Inr cmd) \<Longrightarrow> last cmd = outp"
  by (cases "build_moonsec e w" rule: result_world_cases)
     (auto simp: locate_def dest: select_cmd_last split: if_splits)

lemma try_body_200:
  assumes "fst (try_body e data i outp w) = Return (Response 200 p)"
  shows "\<exists>kvs out evs. data = JObj kvs \<and>
           trace (snd (try_body e data i outp w)) = trace w @ evs \<and> tool_left evs out \<and>
           p = Success
                 (if truthy (requested kvs (py ''pretty'') (JBool True))
                  then format_output out (truthy (requested kvs (py ''disassembly'') (JBool False)))
                  else out)
                 (if truthy (requested kvs (py ''disassembly'') (JBool False))
                  then py ''disassembly'' else py ''bytecode'')
                 (requested kvs (py ''filename'') (JStr (py ''unknown.lua'')))"
proof (cases "py_get data (py ''disassembly'') (JBool False)")
  case (Inl x)
  with assms show ?thesis by (simp add: try_body_def)
next
  case (Inr d)
  then obtain kvs where kvs: "data = JObj kvs" "d = requested kvs (py ''disassembly'') (JBool False)"
    using py_get_Inr by blast
  define c where "c = (if truthy d then py ''-dis'' else py ''-dev'')"
  obtain pre where pre: "trace (snd (locate e c i outp w)) = trace w @ pre"
    using locate_prefix by blast
  show ?thesis
  proof (cases "locate e c i outp w" rule: result_world_cases)
    case (Return found w1)
    show ?thesis
    proof (cases found)
      case (Inl resp)
      with Return have "resp = build_failed \<or> resp = not_found"
        using locate_Inl [of e c i outp w resp] by simp
      moreover have "fst (try_body e data i outp w) = Return resp"
        using Inr Return Inl by (simp add: try_body_def c_def Let_def)
      ultimately show ?thesis using assms by (auto simp: build_failed_def not_found_def)
    next
      case found: (Inr cmd)
      have last: "last cmd = outp" using Return found locate_last [of e c i outp w cmd] by simp
      have tb: "try_body e data i outp w = run_tool e data (truthy d) outp cmd w1"
        using Inr Return found by (simp add: try_body_def c_def Let_def)
      with assms have rt: "fst (run_tool e data (truthy d) outp cmd w1) = Return (Response 200 p)"
        by simp
      from run_tool_200 [OF rt] have ap: "run_tool e data (truthy d) outp cmd w1 =
          after_print e data (truthy d) outp cmd w1" .
      with rt have "fst (after_print e data (truthy d) outp cmd w1) = Return (Response 200 p)"
        by simp
      from after_print_200 [OF this] obtain dur cp f w2 where
        r: "proc e cmd None (fs w1) = Terminates dur cp f" "dur \<le> 30" "returncode cp = 0"
           "fs w2 = f" "fst (read_output data (truthy d) outp w2) = Return (Response 200 p)"
        by blast
      from read_output_200 [OF r(5)] kvs obtain out where
        out: "fs w2 outp = Some (File out)"
          "p = Success
                 (if truthy (requested kvs (py ''pretty'') (JBool True))
                  then format_output out (truthy d) else out)
                 (if truthy d then py ''disassembly'' else py ''bytecode'')
                 (requested kvs (py ''filename'') (JStr (py ''unknown.lua'')))"
        by auto
      have tr: "trace (snd (try_body e data i outp w)) =
                  trace w @ (pre @ [Run cmd None (Some 30) (Terminates dur cp f)])"
        using tb ap after_print_trace [of e data "truthy d" outp cmd w1] pre Return r(1) by simp
      have "tool_left (pre @ [Run cmd None (Some 30) (Terminates dur cp f)]) out"
        unfolding tool_left_def using r(2,3,4) out(1) last by auto
      with tr out(2) kvs show ?thesis by blast
    qed
  next
    case (Raise x w1)
    with Inr assms show ?thesis by (simp add: try_body_def c_def Let_def)
  next
    case (Hang w1)
    with Inr assms show ?thesis by (simp add: try_body_def c_def Let_def)
  qed
qed

lemma try_block_200:
  assumes "fst (try_block e data i outp w) = Return (Response 200 p)"
  shows "fst (try_body e data i outp w) = Return (Response 200 p)"
  using assms
  by (cases "fst (try_body e data i outp w)")
     (auto simp: try_block_result handled_def processing_error_def timed_out_def
           split: if_splits)

lemma deobfuscate_try_200:
  assumes "fst (deobfuscate_try e body w) = Return (Response 200 p)"
  shows "\<exists>data i outp w2. body = Inr data \<and> trace w2 = trace w \<and>
           deobfuscate_try e body w = try_block e data i outp w2"
proof (cases body)
  case (Inl x)
  with assms show ?thesis by (simp add: deobfuscate_try_def)
next
  case (Inr data)
  show ?thesis
  proof (cases "py_in (py ''content'') data")
    case (Inl x)
    with Inr assms show ?thesis
      by (auto simp: deobfuscate_try_def no_content_def split: if_splits)
  next
    case has: (Inr has_content)
    show ?thesis
    proof (cases "write_temp e data w" rule: result_world_cases)
      case (Return name w2)
      then have "trace w2 = trace w" using write_temp_trace [of e data w] by simp
      with Return Inr has assms show ?thesis
        by (auto simp: deobfuscate_try_def no_content_def moonsec_missing_def Let_def
                 split: if_splits)
    next
      case (Raise x w2)
      with Inr has assms show ?thesis
        by (auto simp: deobfuscate_try_def no_content_def moonsec_missing_def Let_def
                 split: if_splits)
    next
      case (Hang w2)
      with Inr has assms show ?thesis
        by (auto simp: deobfuscate_try_def no_content_def moonsec_missing_def Let_def
                 split: if_splits)
    qed
  qed
qed

text \<open>
  C1, amended: when the request is answered 200, its body is a JSON object, \<open>format\<close>
  is \<open>disassembly\<close> when the \<open>disassembly\<close> field is truthy and \<open>bytecode\<close>
  otherwise (also when the field is absent), and \<open>result\<close> is the text the tool left
  in the file named by its last argument, formatted unless \<open>pretty\<close> is falsy. Nothing
  says the result is not empty.
\<close>

theorem success_format_matches_mode:
  assumes "deobfuscate e body w = (Return (Response 200 p), w')"
  shows "\<exists>kvs out. body = Inr (JObj kvs) \<and> tool_left (commands_run e body w) out \<and>
           p = Success
                 (if truthy (requested kvs (py ''pretty'') (JBool True))
                  then format_output out (truthy (requested kvs (py ''disassembly'') (JBool False)))
                  else out)
                 (if truthy (requested kvs (py ''disassembly'') (JBool False))
                  then py ''disassembly'' else py ''bytecode'')
                 (requested kvs (py ''filename'') (JStr (py ''unknown.lua'')))"
proof -
  from assms have "fst (deobfuscate e body w) = Return (Response 200 p)" by simp
  then have d: "fst (deobfuscate_try e body w) = Return (Response 200 p)"
    by (cases "fst (deobfuscate_try e body w)") (auto simp: deobfuscate_result)
  then obtain data i outp w2 where b: "body = Inr data" and tw: "trace w2 = trace w"
    and t: "deobfuscate_try e body w = try_block e data i outp w2"
    using deobfuscate_try_200 by blast
  from d t have "fst (try_block e data i outp w2) = Return (Response 200 p)" by simp
  from try_body_200 [OF try_block_200 [OF this]] obtain kvs out evs where
    k: "data = JObj kvs" and tr: "trace (snd (try_body e data i outp w2)) = trace w2 @ evs"
    and tl: "tool_left evs out"
    and p: "p = Success
                 (if truthy (requested kvs (py ''pretty'') (JBool True))
                  then format_output out (truthy (requested kvs (py ''disassembly'') (JBool False)))
                  else out)
                 (if truthy (requested kvs (py ''disassembly'') (JBool False))
                  then py ''disassembly'' else py ''bytecode'')
                 (requested kvs (py ''filename'') (JStr (py ''unknown.lua'')))"
    by blast
  have "commands_run e body w = evs"
    using t tr tw by (simp add: commands_run_def deobfuscate_world try_block_trace)
  with b k tl p show ?thesis by blast
qed

lemma ok_run:
  "fst (deobfuscate (demo_env (tool_writes (py ''a;b''))) (Inr demo_request) (demo_world installed)) =
     Return (Response 200 (Success (py ''a;'' @ [NL] @ py ''b'') (py ''bytecode'')
        (JStr (py ''unknown.lua''))))"
  by (simp add: handler_defs demo_defs string_defs Let_def)

text \<open>
  C1, amended, at an input: the tool writes \<open>a;b\<close>, the request asks for nothing but
  \<open>content\<close>; the answer is 200 with the two lines \<open>a;\<close> and \<open>b\<close> as
  \<open>bytecode\<close>.
\<close>

theorem success_format_matches_mode_witness:
  "fst (deobfuscate (demo_env (tool_writes (py ''a;b''))) (Inr demo_request) (demo_world installed)) =
     Return (Response 200 (Success (py ''a;'' @ [NL] @ py ''b'') (py ''bytecode'')
        (JStr (py ''unknown.lua'')))) \<and>
   (\<exists>kvs out. demo_request = JObj kvs \<and>
      tool_left (commands_run (demo_env (tool_writes (py ''a;b''))) (Inr demo_request)
                   (demo_world installed)) out \<and>
      Success (py ''a;'' @ [NL] @ py ''b'') (py ''bytecode'') (JStr (py ''unknown.lua'')) =
        Success
          (if truthy (requested kvs (py ''pretty'') (JBool True))
           then format_output out (truthy (requested kvs (py ''disassembly'') (JBool False)))
           else out)
          (if truthy (requested kvs (py ''disassembly'') (JBool False))
           then py ''disassembly'' else py ''bytecode'')
          (requested kvs (py ''filename'') (JStr (py ''unknown.lua''))))"
proof -
  let ?e = "demo_env (tool_writes (py ''a;b''))"
  let ?w = "demo_world installed"
  let ?p = "Success (py ''a;'' @ [NL] @ py ''b'') (py ''bytecode'') (JStr (py ''unknown.lua''))"
  have h: "deobfuscate ?e (Inr demo_request) ?w =
             (Return (Response 200 ?p), snd (deobfuscate ?e (Inr demo_request) ?w))"
    using ok_run by (simp add: prod_eq_iff)
  from success_format_matches_mode [OF h] ok_run show ?thesis by simp
qed

text \<open>
  C1 as stated fails: for the content \<open>print(1)\<close>, a tool that exits with 0 and
  leaves one line break in its output file gets the answer 200 with an empty
  \<open>result\<close>: the formatter drops the blank line.
\<close>

theorem blank_output_empty_result:
  "fst (deobfuscate (demo_env (tool_writes [NL]))
          (Inr (JObj [(py ''content'', JStr (py ''print(1)''))])) (demo_world installed)) =
     Return (Response 200 (Success [] (py ''bytecode'') (JStr (py ''unknown.lua''))))"
  by (simp add: handler_defs demo_defs string_defs Let_def)

subsection \<open>Validation\<close>

lemma rejected:
  "lacks_content data \<Longrightarrow> deobfuscate_try e (Inr data) w = (Return no_content, w)"
  by (cases data) (auto simp: deobfuscate_try_def)

lemma not_rejected:
  "\<not> lacks_content data \<Longrightarrow>
     truthy data \<and> (py_in (py ''content'') data = Inl TypeError \<or> py_in (py ''content'') data = Inr True)"
  by (cases data) (auto simp: py_def)

subsection \<open>The statuses after validation\<close>

lemma read_output_status:
  "fst (read_output data dis outp w) = Return r \<Longrightarrow> status r = 200 \<or> status r = 500"
  by (cases "py_get data (py ''pretty'') (JBool True)";
      cases "py_get data (py ''filename'') (JStr (py ''unknown.lua''))")
     (auto simp: read_output_def no_output_def Let_def split: option.splits entry.splits)

lemma after_print_status:
  assumes "fst (after_print e data dis outp cmd w) = Return r"
  shows "status r = 200 \<or> status r = 500"
proof (cases "subprocess_run e cmd None (Some 30) w" rule: result_world_cases)
  case (Return c w1)
  with assms show ?thesis
    by (cases "print_error e (log_lines c)")
       (auto simp: after_print_def tool_failed_def Let_def dest: read_output_status
             split: if_splits)
qed (use assms in \<open>simp_all add: after_print_def\<close>)

lemma run_tool_status:
  "fst (run_tool e data dis outp cmd w) = Return r \<Longrightarrow> status r = 200 \<or> status r = 500"
  by (cases e data dis outp cmd w rule: run_tool_cases) (auto dest: after_print_status)

lemma try_body_status:
  assumes "fst (try_body e data i outp w) = Return r"
  shows "status r = 200 \<or> status r = 500"
proof (cases "py_get data (py ''disassembly'') (JBool False)")
  case (Inl x)
  with assms show ?thesis by (simp add: try_body_def)
next
  case (Inr d)
  define c where "c = (if truthy d then py ''-dis'' else py ''-dev'')"
  show ?thesis
  proof (cases "locate e c i outp w" rule: result_world_cases)
    case (Return found w1)
    show ?thesis
    proof (cases found)
      case (Inl resp)
      with Return have "resp = build_failed \<or> resp = not_found"
        using locate_Inl [of e c i outp w resp] by simp
      moreover have "fst (try_body e data i outp w) = Return resp"
        using Inr Return Inl by (simp add: try_body_def c_def Let_def)
      ultimately show ?thesis using assms by (auto simp: build_failed_def not_found_def)
    next
      case found: (Inr cmd)
      have "fst (try_body e data i outp w) = fst (run_tool e data (truthy d) outp cmd w1)"
        using Inr Return found by (simp add: try_body_def c_def Let_def)
      with assms show ?thesis using run_tool_status by simp
    qed
  next
    case (Raise x w1)
    with Inr assms show ?thesis by (simp add: try_body_def c_def Let_def)
  next
    case (Hang w1)
    with Inr assms show ?thesis by (simp add: try_body_def c_def Let_def)
  qed
qed

lemma try_block_status:
  assumes "fst (try_block e data i outp w) = Return r"
  shows "status r = 200 \<or> status r = 500"
proof (cases "fst (try_body e data i outp w)")
  case (Return resp)
  with assms have "r = resp" by (simp add: try_block_result)
  with Return show ?thesis using try_body_status by blast
next
  case (Raise x)
  with assms show ?thesis
    by (auto simp: try_block_result handled_def processing_error_def timed_out_def
             split: if_splits)
next
  case Hang
  with assms show ?thesis by (simp add: try_block_result)
qed

lemma try_block_never_raises: "fst (try_block e data i outp w) \<noteq> Raise x"
  by (cases "fst (try_body e data i outp w)") (simp_all add: try_block_result handled_def)

lemma passed_status:
  assumes "\<not> lacks_content data" and "fst (deobfuscate e (Inr data) w) = Return r"
  shows "status r = 200 \<or> status r = 500"
proof -
  from not_rejected [OF assms(1)] have t: "truthy data"
    and i: "py_in (py ''content'') data = Inl TypeError \<or> py_in (py ''content'') data = Inr True"
    by simp_all
  from i show ?thesis
  proof
    assume "py_in (py ''content'') data = Inl TypeError"
    with t have "deobfuscate_try e (Inr data) w = (Raise TypeError, w)"
      by (simp add: deobfuscate_try_def)
    with assms(2) show ?thesis by (auto simp: deobfuscate_def)
  next
    assume has: "py_in (py ''content'') data = Inr True"
    show ?thesis
    proof (cases "path_exists e w MOONSEC_PATH")
      case False
      with t has have "deobfuscate_try e (Inr data) w = (Return (moonsec_missing e), w)"
        by (simp add: deobfuscate_try_def)
      with assms(2) show ?thesis by (auto simp: deobfuscate_def moonsec_missing_def)
    next
      case True
      show ?thesis
      proof (cases "write_temp e data w" rule: result_world_cases)
        case (Return name w2)
        with t has True have "deobfuscate_try e (Inr data) w =
            try_block e data name (name @ py ''.output'') w2"
          by (simp add: deobfuscate_try_def Let_def)
        with assms(2) have "fst (try_block e data name (name @ py ''.output'') w2) = Return r"
          using try_block_never_raises [of e data name "name @ py ''.output''" w2]
          by (cases "fst (try_block e data name (name @ py ''.output'') w2)")
             (auto simp: deobfuscate_result)
        then show ?thesis by (rule try_block_status)
      next
        case (Raise x w2)
        with t has True have "deobfuscate_try e (Inr data) w = (Raise x, w2)"
          by (simp add: deobfuscate_try_def Let_def)
        with assms(2) show ?thesis by (auto simp: deobfuscate_def)
      next
        case (Hang w2)
        with t has True have "deobfuscate_try e (Inr data) w = (Hang, w2)"
          by (simp add: deobfuscate_try_def Let_def)
        with assms(2) show ?thesis by (auto simp: deobfuscate_def)
      qed
    qed
  qed
qed

lemma empty_content_forwarded:
  assumes "path_exists e w MOONSEC_PATH" and "new_temp e (fs w) = Inr name"
  shows "deobfuscate_try e (Inr (JObj [(py ''content'', JStr [])])) w =
           try_block e (JObj [(py ''content'', JStr [])]) name (name @ py ''.output'')
             (w\<lparr>fs := (fs w)(name \<mapsto> File [])\<rparr>)"
  using assms by (simp add: deobfuscate_try_def write_temp_def Let_def)

text \<open>
  What the validation does, body by body: the answer is 400 exactly for the falsy
  bodies, the objects without the key \<open>content\<close>, the lists without the element
  \<open>content\<close> and the strings in which \<open>content\<close> does not occur; and the body
  \<open>{"content": ""}\<close> goes on to the temporary file and the inner \<open>try\<close>.
\<close>

lemma validation_answers_400:
  "((\<exists>r. fst (deobfuscate e (Inr data) w) = Return r \<and> status r = 400) = lacks_content data) \<and>
   (lacks_content data \<longrightarrow>
      deobfuscate e (Inr data) w = (Return (Response 400 (Error (py ''No content provided''))), w))"
proof (intro conjI impI)
  show "(\<exists>r. fst (deobfuscate e (Inr data) w) = Return r \<and> status r = 400) = lacks_content data"
  proof
    assume "\<exists>r. fst (deobfuscate e (Inr data) w) = Return r \<and> status r = 400"
    then obtain r where r: "fst (deobfuscate e (Inr data) w) = Return r" "status r = 400" by blast
    show "lacks_content data"
    proof (rule ccontr)
      assume "\<not> lacks_content data"
      from passed_status [OF this r(1)] r(2) show False by simp
    qed
  next
    assume "lacks_content data"
    from rejected [OF this, of e w]
    show "\<exists>r. fst (deobfuscate e (Inr data) w) = Return r \<and> status r = 400"
      by (simp add: deobfuscate_def no_content_def)
  qed
next
  assume "lacks_content data"
  from rejected [OF this, of e w]
  show "deobfuscate e (Inr data) w = (Return (Response 400 (Error (py ''No content provided''))), w)"
    by (simp add: deobfuscate_def no_content_def)
qed

text \<open>On \<open>null\<close> and on objects the validation is the test for the field.\<close>

lemma validation_on_objects:
  assumes "data = JNull \<or> (\<exists>kvs. data = JObj kvs)"
  shows "(\<exists>r. fst (deobfuscate e (Inr data) w) = Return r \<and> status r = 400) =
           (\<not> truthy data \<or> \<not> has_field data (py ''content''))"
proof -
  from assms have "lacks_content data = (\<not> truthy data \<or> \<not> has_field data (py ''content''))"
    by auto
  with validation_answers_400 [of e data w] show ?thesis by simp
qed

text \<open>
  C2 fails on the code: a truthy bool or number has no field \<open>content\<close>, yet the
  answer is not the 400 of the validation: \<open>'content' not in data\<close> raises a
  \<open>TypeError\<close> inside the test itself, and the outer handler answers 500 with a server
  error, on every machine. The falsy bodies of the same kinds, \<open>false\<close> and \<open>0\<close>, get
  the 400.
\<close>

theorem truthy_scalar_body_is_500:
  assumes "scalar data" and "truthy data"
  shows "\<not> has_field data (py ''content'') \<and>
         deobfuscate e (Inr data) w =
           (Return (Response 500 (Error (py ''Server error: '' @ exn_str e TypeError))), w) \<and>
         deobfuscate e (Inr (JBool False)) w =
           (Return (Response 400 (Error (py ''No content provided''))), w) \<and>
         deobfuscate e (Inr (JInt 0)) w =
           (Return (Response 400 (Error (py ''No content provided''))), w)"
  using assms by (cases data) (simp_all add: deobfuscate_def deobfuscate_try_def no_content_def)

text \<open>C2, at an input: the body \<open>true\<close> on the sample machine.\<close>

theorem truthy_scalar_body_is_500_witness:
  "scalar (JBool True) \<and> truthy (JBool True) \<and> \<not> has_field (JBool True) (py ''content'') \<and>
   deobfuscate (demo_env tool_fails) (Inr (JBool True)) (demo_world installed) =
     (Return (Response 500 (Error (py ''Server error: TypeError''))), demo_world installed) \<and>
   deobfuscate (demo_env tool_fails) (Inr (JBool False)) (demo_world installed) =
     (Return (Response 400 (Error (py ''No content provided''))), demo_world installed)"
proof -
  have h1: "scalar (JBool True)" and h2: "truthy (JBool True)" by simp_all
  from truthy_scalar_body_is_500 [OF h1 h2, of "demo_env tool_fails" "demo_world installed"]
  show ?thesis by (simp add: demo_env_def py_def)
qed

text \<open>
  C10 fails on the code: the body \<open>5\<close> is truthy and has no key \<open>content\<close>, so the
  validation should answer 400; on every machine the answer is 500, the
  \<open>TypeError\<close> of \<open>'content' not in 5\<close> reported by the outer handler. The body
  \<open>0\<close> gets the 400.
\<close>

theorem number_body_is_500:
  "truthy (JInt 5) \<and> \<not> has_field (JInt 5) (py ''content'') \<and>
   deobfuscate e (Inr (JInt 5)) w =
     (Return (Response 500 (Error (py ''Server error: '' @ exn_str e TypeError))), w) \<and>
   deobfuscate e (Inr (JInt 0)) w =
     (Return (Response 400 (Error (py ''No content provided''))), w)"
  by (simp add: deobfuscate_def deobfuscate_try_def no_content_def)


subsection \<open>The scratch files\<close>

text \<open>
  Once the inner \<open>try\<close> is entered the \<open>finally\<close> block does remove both files,
  unless a deletion is refused or a path has become a directory.
\<close>

lemma cleanup_removes_both:
  assumes "\<not> unlink_denied e i" "\<not> unlink_denied e outp"
    and "fs w i \<noteq> Some Dir" "fs w outp \<noteq> Some Dir"
  shows "fs (cleanup e i outp w) i = None \<and> fs (cleanup e i outp w) outp = None"
  using assms
  by (cases "fs w i"; cases "fs w outp")
     (auto simp: cleanup_def unlink_def os_path_exists_def and_then_def
           split: option.splits entry.splits if_splits)

text \<open>
  C5 fails on the code: for the body \<open>{"content": 5}\<close> the temporary file is created,
  \<open>f.write(5)\<close> raises before the inner \<open>try\<close> is entered, the answer is a 500 of
  the outer handler, and the temporary file, absent before the request, is still there
  after it.
\<close>

theorem temp_file_left_behind:
  "installed demo_tmp = None \<and>
   fst (deobfuscate (demo_env (tool_writes (py ''x''))) (Inr (JObj [(py ''content'', JInt 5)]))
          (demo_world installed)) =
     Return (Response 500 (Error (py ''Server error: TypeError''))) \<and>
   fs (snd (deobfuscate (demo_env (tool_writes (py ''x''))) (Inr (JObj [(py ''content'', JInt 5)]))
          (demo_world installed))) demo_tmp = Some (File [])"
  by (simp add: handler_defs demo_defs string_defs Let_def)

text \<open>The same with a string that cannot be encoded: a lone surrogate.\<close>

lemma surrogate_content_left_behind:
  "fst (deobfuscate (demo_env (tool_writes (py ''x''))) (Inr (JObj [(py ''content'', JStr [55296])]))
          (demo_world installed)) =
     Return (Response 500 (Error (py ''Server error: UnicodeEncodeError''))) \<and>
   fs (snd (deobfuscate (demo_env (tool_writes (py ''x''))) (Inr (JObj [(py ''content'', JStr [55296])]))
          (demo_world installed))) demo_tmp = Some (File [])"
  by (simp add: handler_defs demo_defs string_defs Let_def)

subsection \<open>What the locator finds\<close>

lemma find_exe_None: "find_exe e w ps = None \<Longrightarrow> \<forall>p\<in>set ps. \<not> path_exists e w p"
  by (induction ps) (auto split: if_splits)

lemma find_exe_Some: "find_exe e w ps = Some p \<Longrightarrow> first_existing e w ps p"
proof (induction ps)
  case Nil
  then show ?case by simp
next
  case (Cons q ps)
  show ?case
  proof (cases "path_exists e w q")
    case True
    with Cons.prems have "q = p" by simp
    with True show ?thesis unfolding first_existing_def by (intro exI [of _ 0]) simp
  next
    case False
    with Cons have "first_existing e w ps p" by simp
    then obtain i where i: "i < length ps" "ps ! i = p" "path_exists e w p"
      "\<forall>j<i. \<not> path_exists e w (ps ! j)" unfolding first_existing_def by blast
    have "\<forall>j<Suc i. \<not> path_exists e w ((q # ps) ! j)"
    proof (intro allI impI)
      fix j assume "j < Suc i"
      then show "\<not> path_exists e w ((q # ps) ! j)"
        using False i(4) by (cases j) auto
    qed
    with i show ?thesis unfolding first_existing_def by (intro exI [of _ "Suc i"]) simp
  qed
qed

lemma first_existing_unique:
  assumes "first_existing e w ps p" "first_existing e w ps q"
  shows "p = q"
proof -
  from assms obtain i j where
    i: "i < length ps" "ps ! i = p" "path_exists e w p" "\<forall>k<i. \<not> path_exists e w (ps ! k)" and
    j: "j < length ps" "ps ! j = q" "path_exists e w q" "\<forall>k<j. \<not> path_exists e w (ps ! k)"
    unfolding first_existing_def by blast
  have "\<not> j < i" using i(4) j(2,3) by auto
  moreover have "\<not> i < j" using j(4) i(2,3) by auto
  ultimately have "i = j" by simp
  with i(2) j(2) show ?thesis by simp
qed

lemma first_existing_exists:
  "first_existing e w ps p \<Longrightarrow> p \<in> set ps \<and> path_exists e w p"
  unfolding first_existing_def by auto


lemma located_select_cmd:
  assumes "located e w c i outp x"
  shows "x = select_cmd e w c i outp"
proof (cases "find_exe e w possible_paths")
  case None
  from find_exe_None [OF None] have none: "\<forall>p\<in>set possible_paths. \<not> path_exists e w p" .
  then have "\<not> (\<exists>p. first_existing e w possible_paths p)"
    using first_existing_exists [of e w possible_paths] by blast
  with assms have "(path_exists e w dll \<and>
      x = Inr [py ''dotnet'', str_path e dll, c, py ''-i'', i, py ''-o'', outp]) \<or>
     (\<not> path_exists e w dll \<and>
      x = Inl (Response 500 (Error (py ''Moonsec executable not found. Try building first.''))))"
    unfolding located_def by blast
  with None show ?thesis
    by (auto simp: select_cmd_def dll_def not_found_def Let_def)
next
  case (Some p)
  from find_exe_Some [OF Some] have fp: "first_existing e w possible_paths p" .
  then have "\<not> (\<forall>q\<in>set possible_paths. \<not> path_exists e w q)"
    using first_existing_exists [of e w possible_paths p] by blast
  with assms obtain q where "first_existing e w possible_paths q"
    "x = Inr [str_path e q, c, py ''-i'', i, py ''-o'', outp]"
    unfolding located_def by blast
  with fp first_existing_unique [of e w possible_paths p q] Some show ?thesis
    by (simp add: select_cmd_def)
qed

lemma located_unique:
  assumes "located e w c i outp x" "located e w c i outp y"
  shows "x = y"
  using assms located_select_cmd by metis

subsection \<open>The build, by what its commands do\<close>





subsection \<open>A failed build at the endpoint\<close>









end
